theory Spec2Isabelle
  imports Main "HOL-Library.Word" "HOL-Library.Monad_Syntax"
begin

unbundle bit_operations_syntax

section \<open>Colours of the standard library, as the dithering package uses them\<close>

text \<open>
  The package \<open>dither\<close> works on values of the interface \<open>color.Color\<close>, whose only
  method \<open>RGBA()\<close> returns four \<open>uint32\<close> channels. Three concrete colour types occur
  in the package: \<open>color.RGBA\<close> (what \<open>image.RGBA.At\<close> returns, 8 bits per channel),
  \<open>color.NRGBA64\<close> (what \<open>makeColor\<close> builds, 16 bits per channel, not premultiplied)
  and \<open>color.Gray16\<close> (what \<open>BlackAndWhitePalette\<close> returns). Any other implementation
  of the interface is represented by the four values its \<open>RGBA()\<close> method returns.
\<close>

type_synonym uint8 = "8 word"
type_synonym uint16 = "16 word"
type_synonym uint32 = "32 word"
type_synonym uint64 = "64 word"

datatype Color =
    RGBA uint8 uint8 uint8 uint8
  | NRGBA64 uint16 uint16 uint16 uint16
  | Gray16 uint16
  | OtherColor uint32 uint32 uint32 uint32

text \<open>\<open>r = uint32(c.R); r |= r << 8\<close> of \<open>color.RGBA.RGBA\<close>.\<close>

definition spread8 :: "uint8 \<Rightarrow> uint32" where
  "spread8 v = (ucast v) OR (push_bit 8 (ucast v))"

text \<open>\<open>r = uint32(c.R); r *= uint32(c.A); r /= 0xffff\<close> of \<open>color.NRGBA64.RGBA\<close>.\<close>

definition premul16 :: "uint16 \<Rightarrow> uint16 \<Rightarrow> uint32" where
  "premul16 v a = (ucast v * ucast a) div 0xffff"

fun Color_RGBA :: "Color \<Rightarrow> uint32 \<times> uint32 \<times> uint32 \<times> uint32" where
  "Color_RGBA (RGBA r g b a) = (spread8 r, spread8 g, spread8 b, spread8 a)"
| "Color_RGBA (NRGBA64 r g b a) = (premul16 r a, premul16 g a, premul16 b a, ucast a)"
| "Color_RGBA (Gray16 y) = (ucast y, ucast y, ucast y, 0xffff)"
| "Color_RGBA (OtherColor r g b a) = (r, g, b, a)"

text \<open>
  \<open>color.RGBAModel.Convert\<close>: a \<open>color.RGBA\<close> is returned as it is, every other colour
  is read through \<open>RGBA()\<close> and each channel is cut to its high byte,
  \<open>uint8(r >> 8)\<close>.
\<close>

fun rgbaModel :: "Color \<Rightarrow> Color" where
  "rgbaModel (RGBA r g b a) = RGBA r g b a"
| "rgbaModel c = (case Color_RGBA c of (r, g, b, a) \<Rightarrow>
     RGBA (ucast (drop_bit 8 r)) (ucast (drop_bit 8 g)) (ucast (drop_bit 8 b)) (ucast (drop_bit 8 a)))"

section \<open>Colour arithmetic of the package\<close>

text \<open>
  \<open>RGBAVec\<close> holds four \<open>int64\<close> values. They are modelled as integers, and every
  \<open>int64\<close> operation of the source is followed by the two's complement wrap-around
  \<open>wrap_int64\<close>.
\<close>

record RGBAVec =
  R :: int
  G :: int
  B :: int
  A :: int

definition wrap_int64 :: "int \<Rightarrow> int" where
  "wrap_int64 v = (v + 2 ^ 63) mod 2 ^ 64 - 2 ^ 63"

definition clamp :: "int \<Rightarrow> int \<Rightarrow> int \<Rightarrow> int" where
  "clamp val min_v max_v = (if val > max_v then max_v else if val < min_v then min_v else val)"

definition makeColor :: "int \<Rightarrow> int \<Rightarrow> int \<Rightarrow> int \<Rightarrow> Color" where
  "makeColor r g b a =
     (let r = clamp r 0 0xFFFF;
          g = clamp g 0 0xFFFF;
          b = clamp b 0 0xFFFF;
          a = clamp a 0 0xFFFF
      in NRGBA64 (word_of_int r) (word_of_int g) (word_of_int b) (word_of_int a))"

text \<open>
  \<open>applyWeightsFloydSteinber\<close> computes, for each channel,
  \<open>int64(oR) + (err.R*int64(mul))>>4\<close>. The shift binds tighter than the sum, and
  \<open>>>\<close> on a signed integer is the arithmetic shift, which is \<open>drop_bit\<close> on \<open>int\<close>
  (division by 16 rounding towards minus infinity). The summand
  \<open>(err.R*int64(mul))>>4\<close>, which the source writes out once per channel, is
  \<open>shareFloydSteinberg\<close>.
\<close>

definition shareFloydSteinberg :: "int \<Rightarrow> int \<Rightarrow> int" where
  "shareFloydSteinberg e mul = drop_bit 4 (wrap_int64 (e * mul))"

definition applyWeightsFloydSteinber :: "Color \<Rightarrow> RGBAVec \<Rightarrow> int \<Rightarrow> Color" where
  "applyWeightsFloydSteinber orig err mul =
     (case Color_RGBA orig of (oR, oG, oB, oA) \<Rightarrow>
        let nR = wrap_int64 (uint oR + shareFloydSteinberg (R err) mul);
            nG = wrap_int64 (uint oG + shareFloydSteinberg (G err) mul);
            nB = wrap_int64 (uint oB + shareFloydSteinberg (B err) mul);
            nA = wrap_int64 (uint oA + shareFloydSteinberg (A err) mul)
        in makeColor nR nG nB nA)"

text \<open>
  \<open>applyWeightsBurkes\<close> computes \<open>int64(oR) + (err.R<<uint64(mul))>>5\<close>: here \<open>mul\<close>
  is a shift count. The summand \<open>(err.R<<uint64(mul))>>5\<close> is \<open>shareBurkes\<close>.
\<close>

definition shareBurkes :: "int \<Rightarrow> nat \<Rightarrow> int" where
  "shareBurkes e mul = drop_bit 5 (wrap_int64 (push_bit mul e))"

definition applyWeightsBurkes :: "Color \<Rightarrow> RGBAVec \<Rightarrow> nat \<Rightarrow> Color" where
  "applyWeightsBurkes orig err mul =
     (case Color_RGBA orig of (oR, oG, oB, oA) \<Rightarrow>
        let nR = wrap_int64 (uint oR + shareBurkes (R err) mul);
            nG = wrap_int64 (uint oG + shareBurkes (G err) mul);
            nB = wrap_int64 (uint oB + shareBurkes (B err) mul);
            nA = wrap_int64 (uint oA + shareBurkes (A err) mul)
        in makeColor nR nG nB nA)"

definition colorDiff :: "Color \<Rightarrow> Color \<Rightarrow> RGBAVec" where
  "colorDiff a b =
     (case Color_RGBA a of (aR, aG, aB, aA) \<Rightarrow>
      case Color_RGBA b of (bR, bG, bB, bA) \<Rightarrow>
        \<lparr> R = wrap_int64 (uint aR - uint bR),
          G = wrap_int64 (uint aG - uint bG),
          B = wrap_int64 (uint aB - uint bB),
          A = wrap_int64 (uint aA - uint bA) \<rparr>)"

section \<open>Palette strategies\<close>

type_synonym ColorFinder = "Color \<Rightarrow> Color"

text \<open>
  \<open>gray := (uint64(r) + uint64(g) + uint64(b)) / 3\<close>, compared with the constant
  \<open>0xFFFF>>1\<close>; the result is \<open>color.Gray16{uint16(gray)}\<close>.
\<close>

definition BlackAndWhitePalette :: ColorFinder where
  "BlackAndWhitePalette c =
     (case Color_RGBA c of (r, g, b, _) \<Rightarrow>
        let gray = ((ucast r :: uint64) + ucast g + ucast b) div 3;
            gray = (if gray < drop_bit 1 0xFFFF then 0 else 0xFFFF :: uint64)
        in Gray16 (ucast gray))"

text \<open>
  \<open>color.Palette.Index\<close> and \<open>color.Palette.Convert\<close> of the standard library.
  \<open>sqDiff\<close> is \<open>d := x - y; return (d * d) >> 2\<close> on \<open>uint32\<close>. The loop of \<open>Index\<close>
  keeps the index \<open>ret\<close> of the closest entry so far and its distance \<open>bestSum\<close>
  (at the start 0 and \<open>1<<32 - 1\<close>), and returns at once on an exact match.
  \<open>Convert\<close> returns nil for an empty palette, which is \<open>None\<close> here.
\<close>

definition sqDiff :: "uint32 \<Rightarrow> uint32 \<Rightarrow> uint32" where
  "sqDiff x y = (let d = x - y in drop_bit 2 (d * d))"

fun Index_loop :: "Color list \<Rightarrow> nat \<Rightarrow> nat \<Rightarrow> uint32 \<Rightarrow> Color \<Rightarrow> nat" where
  "Index_loop [] i ret bestSum c = ret"
| "Index_loop (v # vs) i ret bestSum c =
     (case Color_RGBA c of (cr, cg, cb, ca) \<Rightarrow>
      case Color_RGBA v of (vr, vg, vb, va) \<Rightarrow>
        let sum = sqDiff cr vr + sqDiff cg vg + sqDiff cb vb + sqDiff ca va
        in if sum < bestSum
           then (if sum = 0 then i else Index_loop vs (i + 1) i sum c)
           else Index_loop vs (i + 1) ret bestSum c)"

definition Index :: "Color list \<Rightarrow> Color \<Rightarrow> nat" where
  "Index p c = Index_loop p 0 0 (2 ^ 32 - 1) c"

definition Convert :: "Color list \<Rightarrow> Color \<Rightarrow> Color option" where
  "Convert p c = (if length p = 0 then None else Some (p ! Index p c))"

text \<open>
  \<open>WebSafePalette\<close> and \<open>Plan9Palette\<close> convert with the tables \<open>palette.WebSafe\<close> and
  \<open>palette.Plan9\<close> of the standard library, which are not part of the sources of
  the package. The table is a parameter of the model; what is known of both tables is that
  they are not empty and that each entry is a \<open>color.RGBA\<close> value (\<open>palette_table\<close>).
\<close>

definition WebSafePalette :: "Color list \<Rightarrow> Color \<Rightarrow> Color option" where
  "WebSafePalette WebSafe c = Convert WebSafe c"

definition Plan9Palette :: "Color list \<Rightarrow> Color \<Rightarrow> Color option" where
  "Plan9Palette Plan9 c = Convert Plan9 c"

fun is_RGBA :: "Color \<Rightarrow> bool" where
  "is_RGBA (RGBA r g b a) = True"
| "is_RGBA c = False"

definition palette_table :: "Color list \<Rightarrow> bool" where
  "palette_table p \<longleftrightarrow> p \<noteq> [] \<and> list_all is_RGBA p"

section \<open>Images of the standard library\<close>

record Point =
  X :: int
  Y :: int

record Rectangle =
  MinPt :: Point
  MaxPt :: Point

definition Dx :: "Rectangle \<Rightarrow> int" where
  "Dx r = X (MaxPt r) - X (MinPt r)"

definition Dy :: "Rectangle \<Rightarrow> int" where
  "Dy r = Y (MaxPt r) - Y (MinPt r)"

definition Point_In :: "Point \<Rightarrow> Rectangle \<Rightarrow> bool" where
  "Point_In p r \<longleftrightarrow>
     X (MinPt r) \<le> X p \<and> X p < X (MaxPt r) \<and> Y (MinPt r) \<le> Y p \<and> Y p < Y (MaxPt r)"

text \<open>
  \<open>image.RGBA\<close>: the bytes \<open>Pix\<close> hold the pixels row by row, four bytes each; the
  pixel at \<open>(x, y)\<close> starts at \<open>(y - Rect.Min.Y) * Stride + (x - Rect.Min.X) * 4\<close>.
\<close>

record RGBAImage =
  Pix :: "uint8 list"
  Stride :: int
  Rect :: Rectangle

definition PixOffset :: "RGBAImage \<Rightarrow> int \<Rightarrow> int \<Rightarrow> int" where
  "PixOffset p x y = (y - Y (MinPt (Rect p))) * Stride p + (x - X (MinPt (Rect p))) * 4"

text \<open>
  The bodies of \<open>(*image.RGBA).At\<close> and \<open>(*image.RGBA).Set\<close> on the structure they
  point to. A point outside \<open>Rect\<close> reads as the zero colour and is not written. Inside,
  both take the slice \<open>p.Pix[i : i+4 : i+4]\<close>, which panics when it does not lie within
  the bytes: that is \<open>None\<close>.
\<close>

definition At_img :: "RGBAImage \<Rightarrow> int \<Rightarrow> int \<Rightarrow> Color option" where
  "At_img p x y =
     (if \<not> Point_In \<lparr>X = x, Y = y\<rparr> (Rect p) then Some (RGBA 0 0 0 0)
      else let i = PixOffset p x y in
        if 0 \<le> i \<and> i + 4 \<le> int (length (Pix p))
        then Some (RGBA (Pix p ! nat i) (Pix p ! (nat i + 1)) (Pix p ! (nat i + 2)) (Pix p ! (nat i + 3)))
        else None)"

definition Set_img :: "RGBAImage \<Rightarrow> int \<Rightarrow> int \<Rightarrow> Color \<Rightarrow> RGBAImage option" where
  "Set_img p x y c =
     (if \<not> Point_In \<lparr>X = x, Y = y\<rparr> (Rect p) then Some p
      else let i = PixOffset p x y in
        case rgbaModel c of
          RGBA r g b a \<Rightarrow>
            if 0 \<le> i \<and> i + 4 \<le> int (length (Pix p))
            then Some (p\<lparr>Pix := (Pix p)[nat i := r, nat i + 1 := g, nat i + 2 := b, nat i + 3 := a]\<rparr>)
            else None
        | _ \<Rightarrow> None)"

text \<open>
  The images a call can reach live in a store, a list of \<open>image.RGBA\<close> structures; a
  pointer \<open>*image.RGBA\<close> is an index into it, and a pointer beyond the store is a nil
  dereference (\<open>None\<close>). Allocation appends to the store.
\<close>

type_synonym heap = "RGBAImage list"

definition RGBA_At :: "nat \<Rightarrow> int \<Rightarrow> int \<Rightarrow> heap \<Rightarrow> Color option" where
  "RGBA_At p x y h = (if p < length h then At_img (h ! p) x y else None)"

definition RGBA_Set :: "nat \<Rightarrow> int \<Rightarrow> int \<Rightarrow> Color \<Rightarrow> heap \<Rightarrow> heap option" where
  "RGBA_Set p x y c h =
     (if p < length h then map_option (\<lambda>b. h[p := b]) (Set_img (h ! p) x y c) else None)"

text \<open>
  \<open>image.NewRGBA\<close> panics for a rectangle of negative width or height and otherwise
  allocates \<open>4 * Dx * Dy\<close> zero bytes with \<open>Stride = 4 * Dx\<close>. Coordinates and sizes
  are Go's \<open>int\<close>, modelled as unbounded integers: a buffer that exists has fewer than
  \<open>2 ^ 63\<close> bytes, so that no offset computed inside it overflows.
\<close>

definition NewRGBA :: "Rectangle \<Rightarrow> heap \<Rightarrow> (nat \<times> heap) option" where
  "NewRGBA r h =
     (if Dx r < 0 \<or> Dy r < 0 then None
      else Some (length h,
        h @ [\<lparr>Pix = replicate (nat (4 * Dx r * Dy r)) 0, Stride = 4 * Dx r, Rect = r\<rparr>]))"

text \<open>
  An \<open>image.Image\<close> is either a pointer to an \<open>image.RGBA\<close> of the store or any other
  image, given by its bounds and its \<open>At\<close> method.
\<close>

datatype Image = RGBARef nat | ImageValue Rectangle "int \<Rightarrow> int \<Rightarrow> Color"

fun Bounds :: "Image \<Rightarrow> heap \<Rightarrow> Rectangle option" where
  "Bounds (RGBARef p) h = (if p < length h then Some (Rect (h ! p)) else None)"
| "Bounds (ImageValue r f) h = Some r"

fun Image_At :: "Image \<Rightarrow> int \<Rightarrow> int \<Rightarrow> heap \<Rightarrow> Color option" where
  "Image_At (RGBARef p) x y h = RGBA_At p x y h"
| "Image_At (ImageValue r f) x y h = Some (f x y)"

text \<open>
  \<open>draw.Draw(dst, r, src, sp, draw.Src)\<close> with an \<open>*image.RGBA\<close> destination: every
  point of \<open>r\<close> that lies in the bounds of \<open>dst\<close> and whose source point (\<open>r.Min\<close>
  aligned with \<open>sp\<close>) lies in the bounds of \<open>src\<close> receives the source colour,
  converted to \<open>color.RGBA\<close>. The fast paths of the library compute the same bytes.
\<close>

fun foldM_option :: "('a \<Rightarrow> 's \<Rightarrow> 's option) \<Rightarrow> 'a list \<Rightarrow> 's \<Rightarrow> 's option" where
  "foldM_option f [] s = Some s"
| "foldM_option f (x # xs) s = (case f x s of None \<Rightarrow> None | Some s' \<Rightarrow> foldM_option f xs s')"

definition draw_point :: "nat \<Rightarrow> Rectangle \<Rightarrow> Image \<Rightarrow> Point \<Rightarrow> int \<Rightarrow> int \<Rightarrow> heap \<Rightarrow> heap option" where
  "draw_point dst r src sp y x h = do {
     sb \<leftarrow> Bounds src h;
     let sx = x + (X sp - X (MinPt r));
     let sy = y + (Y sp - Y (MinPt r));
     if Point_In \<lparr>X = sx, Y = sy\<rparr> sb
     then do { c \<leftarrow> Image_At src sx sy h; RGBA_Set dst x y c h }
     else Some h
   }"

definition draw_Draw_Src :: "nat \<Rightarrow> Rectangle \<Rightarrow> Image \<Rightarrow> Point \<Rightarrow> heap \<Rightarrow> heap option" where
  "draw_Draw_Src dst r src sp h =
     foldM_option
       (\<lambda>y. foldM_option (draw_point dst r src sp y) [X (MinPt r) .. X (MaxPt r) - 1])
       [Y (MinPt r) .. Y (MaxPt r) - 1] h"

section \<open>Diffusion kernels\<close>

text \<open>
  An \<open>Algo\<close> receives the coordinates, the pointer to the image and the error, and
  changes the store.
\<close>

type_synonym Algo = "int \<Rightarrow> int \<Rightarrow> nat \<Rightarrow> RGBAVec \<Rightarrow> heap \<Rightarrow> heap option"

definition FloydSteinberg :: Algo where
  "FloydSteinberg x y img err h = do {
     c \<leftarrow> RGBA_At img (x + 1) y h;
     h \<leftarrow> RGBA_Set img (x + 1) y (applyWeightsFloydSteinber c err 7) h;
     c \<leftarrow> RGBA_At img (x + 1) (y + 1) h;
     h \<leftarrow> RGBA_Set img (x + 1) (y + 1) (applyWeightsFloydSteinber c err 1) h;
     c \<leftarrow> RGBA_At img x (y + 1) h;
     h \<leftarrow> RGBA_Set img x (y + 1) (applyWeightsFloydSteinber c err 5) h;
     c \<leftarrow> RGBA_At img (x - 1) (y + 1) h;
     RGBA_Set img (x - 1) (y + 1) (applyWeightsFloydSteinber c err 3) h
   }"

definition Burkes :: Algo where
  "Burkes x y img err h = do {
     c \<leftarrow> RGBA_At img (x + 1) y h;
     h \<leftarrow> RGBA_Set img (x + 1) y (applyWeightsBurkes c err 3) h;
     c \<leftarrow> RGBA_At img (x + 2) y h;
     h \<leftarrow> RGBA_Set img (x + 2) y (applyWeightsBurkes c err 2) h;
     c \<leftarrow> RGBA_At img (x - 2) (y + 1) h;
     h \<leftarrow> RGBA_Set img (x - 2) (y + 1) (applyWeightsBurkes c err 1) h;
     c \<leftarrow> RGBA_At img (x - 1) (y + 1) h;
     h \<leftarrow> RGBA_Set img (x - 1) (y + 1) (applyWeightsBurkes c err 2) h;
     c \<leftarrow> RGBA_At img x (y + 1) h;
     h \<leftarrow> RGBA_Set img x (y + 1) (applyWeightsBurkes c err 3) h;
     c \<leftarrow> RGBA_At img (x + 1) (y + 1) h;
     h \<leftarrow> RGBA_Set img (x + 1) (y + 1) (applyWeightsBurkes c err 2) h;
     c \<leftarrow> RGBA_At img (x + 2) (y + 1) h;
     RGBA_Set img (x + 2) (y + 1) (applyWeightsBurkes c err 1) h
   }"

section \<open>The dither engine\<close>

text \<open>
  The inner loop \<open>for x := rect.Min.X; x < rect.Max.X; x++\<close> of \<open>Dither\<close>, from the
  current value of \<open>x\<close>, and the outer loop over \<open>y\<close>. The parameter \<open>find\<close> of the
  source is \<open>finder\<close> here, and the store is passed through every call that reads or
  writes the image.
\<close>

function Dither_cols :: "int \<Rightarrow> int \<Rightarrow> Rectangle \<Rightarrow> nat \<Rightarrow> Algo \<Rightarrow> ColorFinder \<Rightarrow> heap \<Rightarrow> heap option" where
  "Dither_cols x y rect dithered algo finder h =
     (if x < X (MaxPt rect) then do {
        oldPixel \<leftarrow> RGBA_At dithered x y h;
        let newPixel = finder oldPixel;
        h \<leftarrow> RGBA_Set dithered x y newPixel h;
        let diff = colorDiff oldPixel newPixel;
        h \<leftarrow> algo x y dithered diff h;
        Dither_cols (x + 1) y rect dithered algo finder h
      } else Some h)"
  by pat_completeness auto
termination
  by (relation "measure (\<lambda>(x, y, rect, dithered, algo, finder, h). nat (X (MaxPt rect) - x))") auto

function Dither_rows :: "int \<Rightarrow> Rectangle \<Rightarrow> nat \<Rightarrow> Algo \<Rightarrow> ColorFinder \<Rightarrow> heap \<Rightarrow> heap option" where
  "Dither_rows y rect dithered algo finder h =
     (if y < Y (MaxPt rect) then do {
        h \<leftarrow> Dither_cols (X (MinPt rect)) y rect dithered algo finder h;
        Dither_rows (y + 1) rect dithered algo finder h
      } else Some h)"
  by pat_completeness auto
termination
  by (relation "measure (\<lambda>(y, rect, dithered, algo, finder, h). nat (Y (MaxPt rect) - y))") auto

definition Dither :: "Image \<Rightarrow> Algo \<Rightarrow> ColorFinder \<Rightarrow> heap \<Rightarrow> (nat \<times> heap) option" where
  "Dither img algo finder h = do {
     rect \<leftarrow> Bounds img h;
     (dithered, h) \<leftarrow> NewRGBA rect h;
     h \<leftarrow> draw_Draw_Src dithered rect img (MinPt rect) h;
     h \<leftarrow> Dither_rows (Y (MinPt rect)) rect dithered algo finder h;
     Some (dithered, h)
   }"

section \<open>Invariants and views used in the statements\<close>

text \<open>
  The invariant of an \<open>image.RGBA\<close> that \<open>image.NewRGBA\<close> establishes: a rectangle
  of non-negative width and height, the stride of a row, and as many bytes as the rectangle
  needs.
\<close>

definition valid_RGBA :: "RGBAImage \<Rightarrow> bool" where
  "valid_RGBA p \<longleftrightarrow>
     0 \<le> Dx (Rect p) \<and> 0 \<le> Dy (Rect p) \<and> Stride p = 4 * Dx (Rect p) \<and>
     int (length (Pix p)) = 4 * Dx (Rect p) * Dy (Rect p)"

text \<open>
  A source image is well formed when its rectangle is (\<open>Min.X \<le> Max.X\<close> and
  \<open>Min.Y \<le> Max.Y\<close>) and, for an \<open>*image.RGBA\<close>, when it points to a valid structure
  of the store.
\<close>

fun valid_Image :: "Image \<Rightarrow> heap \<Rightarrow> bool" where
  "valid_Image (RGBARef p) h \<longleftrightarrow> p < length h \<and> valid_RGBA (h ! p)"
| "valid_Image (ImageValue r f) h \<longleftrightarrow> 0 \<le> Dx r \<and> 0 \<le> Dy r"

text \<open>What \<open>At\<close> reads and what \<open>Set\<close> leaves, as total functions on a structure.\<close>

definition px :: "RGBAImage \<Rightarrow> int \<Rightarrow> int \<Rightarrow> Color" where
  "px p x y = (case At_img p x y of Some c \<Rightarrow> c | None \<Rightarrow> RGBA 0 0 0 0)"

definition set_px :: "RGBAImage \<Rightarrow> int \<Rightarrow> int \<Rightarrow> Color \<Rightarrow> RGBAImage" where
  "set_px p x y c = (case Set_img p x y c of Some p' \<Rightarrow> p' | None \<Rightarrow> p)"

text \<open>
  A kernel is forward when, called at \<open>(x, y)\<close> on a valid image, it returns, changes
  nothing but the pixels of that image, keeps it valid with the same rectangle, and leaves
  every pixel at or before \<open>(x, y)\<close> in raster order as it was.
\<close>

definition forward_kernel :: "Algo \<Rightarrow> bool" where
  "forward_kernel algo \<longleftrightarrow>
     (\<forall>x y p err h. p < length h \<and> valid_RGBA (h ! p) \<longrightarrow>
        (\<exists>b. algo x y p err h = Some (h[p := b]) \<and> valid_RGBA b \<and> Rect b = Rect (h ! p) \<and>
           (\<forall>x' y'. y' < y \<or> (y' = y \<and> x' \<le> x) \<longrightarrow> px b x' y' = px (h ! p) x' y')))"

section \<open>Facts about the palette strategies\<close>

lemma gray_unat:
  "unat (((ucast (r::uint32) :: uint64) + ucast (g::uint32) + ucast (b::uint32)) div 3) = (unat r + unat g + unat b) div 3"
proof -
  have r: "unat r < 2^32" and g: "unat g < 2^32" and b: "unat b < 2^32"
    using unsigned_less[of r] unsigned_less[of g] unsigned_less[of b] by simp_all
  have "unat ((ucast r :: uint64) + ucast g + ucast b) = unat r + unat g + unat b"
    using r g b by (simp add: unat_word_ariths unsigned_ucast_eq take_bit_nat_eq_self)
  then show ?thesis by (simp add: unat_div)
qed

lemma BW_char: "BlackAndWhitePalette c = (case Color_RGBA c of (r, g, b, a) \<Rightarrow>
   if (unat r + unat g + unat b) div 3 < 65535 div 2 then Gray16 0 else Gray16 0xFFFF)"
  apply (simp add: BlackAndWhitePalette_def Let_def split: prod.splits)
  apply (simp add: word_less_nat_alt gray_unat)
  done

lemma BW_idem: "BlackAndWhitePalette (BlackAndWhitePalette c) = BlackAndWhitePalette c"
  by (simp add: BW_char split: prod.splits)

subsection \<open>Exact matches in a palette table\<close>

lemma spread8_unat: "unat (spread8 v) = 257 * unat v"
proof -
  have v: "unat v < 256" using unsigned_less[of v] by simp
  have "(ucast v :: uint32) OR push_bit 8 (ucast v) = ucast v + push_bit 8 (ucast v)"
    by (rule disjunctive_add_eq_or[symmetric]) (auto simp: bit_eq_iff bit_simps dest: bit_imp_le_length)
  then have "unat (spread8 v) = unat ((ucast v :: uint32) + push_bit 8 (ucast v))"
    by (simp add: spread8_def)
  also have "\<dots> = unat v + 256 * unat v"
    using v by (simp add: unat_word_ariths unsigned_ucast_eq take_bit_nat_eq_self push_bit_eq_mult unsigned_push_bit_eq)
  finally show ?thesis by simp
qed

lemma sqDiff_sym: "sqDiff x y = sqDiff y x"
proof -
  have "(x - y) * (x - y) = (y - x) * (y - x)" by (simp add: algebra_simps)
  then show ?thesis by (simp add: sqDiff_def Let_def)
qed

lemma sqDiff_unat_small:
  assumes "unat y \<le> unat x" "unat x \<le> 65535"
  shows "unat (sqDiff x y) = ((unat x - unat y) * (unat x - unat y)) div 4"
proof -
  have le: "y \<le> x" using assms(1) by (simp add: word_le_nat_alt)
  have d: "unat (x - y) = unat x - unat y" using le by (rule unat_sub)
  have k: "unat x - unat y \<le> 65535" using assms by linarith
  have "(unat x - unat y) * (unat x - unat y) \<le> 65535 * 65535"
    using mult_le_mono[OF k k] .
  then have "unat ((x - y) * (x - y)) = (unat x - unat y) * (unat x - unat y)"
    by (simp add: unat_word_ariths d)
  then show ?thesis
    by (simp add: sqDiff_def Let_def drop_bit_eq_div unat_div)
qed

lemma sqDiff_spread8_zero: "sqDiff (spread8 a) (spread8 b) = 0 \<longleftrightarrow> a = b"
proof
  assume z: "sqDiff (spread8 a) (spread8 b) = 0"
  have ua: "unat a < 256" and ub: "unat b < 256"
    using unsigned_less[of a] unsigned_less[of b] by simp_all
  have key: "unat q \<le> unat p \<Longrightarrow> sqDiff (spread8 p) (spread8 q) = 0 \<Longrightarrow> unat p = unat q" for p q :: uint8
  proof -
    assume le: "unat q \<le> unat p" and zz: "sqDiff (spread8 p) (spread8 q) = 0"
    have up: "unat p < 256" using unsigned_less[of p] by simp
    have "unat (sqDiff (spread8 p) (spread8 q)) =
       ((unat (spread8 p) - unat (spread8 q)) * (unat (spread8 p) - unat (spread8 q))) div 4"
      by (rule sqDiff_unat_small) (use le up in \<open>simp_all add: spread8_unat\<close>)
    then have e: "((257 * unat p - 257 * unat q) * (257 * unat p - 257 * unat q)) div 4 = 0"
      using zz by (simp add: spread8_unat)
    show "unat p = unat q"
    proof (rule ccontr)
      assume "unat p \<noteq> unat q"
      then have k: "257 \<le> 257 * unat p - 257 * unat q" using le by linarith
      have "257 * 257 \<le> (257 * unat p - 257 * unat q) * (257 * unat p - 257 * unat q)"
        using mult_le_mono[OF k k] .
      then show False using e by simp
    qed
  qed
  have "unat a = unat b"
  proof (cases "unat b \<le> unat a")
    case True then show ?thesis using key z by blast
  next
    case False
    then have "unat a \<le> unat b" by simp
    moreover have "sqDiff (spread8 b) (spread8 a) = 0" using z by (simp add: sqDiff_sym)
    ultimately show ?thesis using key by metis
  qed
  then show "a = b" by (simp add: word_unat_eq_iff)
next
  assume "a = b" then show "sqDiff (spread8 a) (spread8 b) = 0" by (simp add: sqDiff_def)
qed

lemma sqDiff_bound: "unat (sqDiff x y) < 2 ^ 30"
proof -
  have "unat ((x - y) * (x - y)) < 2 ^ 32" using unsigned_less[of "(x - y) * (x - y)"] by simp
  then show ?thesis by (simp add: sqDiff_def Let_def drop_bit_eq_div unat_div)
qed

lemma sqDiff_sum_zero:
  "sqDiff a a' + sqDiff b b' + sqDiff c c' + sqDiff d d' = 0 \<longleftrightarrow>
   sqDiff a a' = 0 \<and> sqDiff b b' = 0 \<and> sqDiff c c' = 0 \<and> sqDiff d d' = 0"
proof -
  have "unat (sqDiff a a' + sqDiff b b' + sqDiff c c' + sqDiff d d') =
        unat (sqDiff a a') + unat (sqDiff b b') + unat (sqDiff c c') + unat (sqDiff d d')"
    using sqDiff_bound[of a a'] sqDiff_bound[of b b'] sqDiff_bound[of c c'] sqDiff_bound[of d d']
    by (simp add: unat_word_ariths)
  then have "unat (sqDiff a a' + sqDiff b b' + sqDiff c c' + sqDiff d d') = 0 \<longleftrightarrow>
     unat (sqDiff a a') = 0 \<and> unat (sqDiff b b') = 0 \<and> unat (sqDiff c c') = 0 \<and> unat (sqDiff d d') = 0"
    by simp
  then show ?thesis by (simp only: unat_eq_0)
qed

lemma Index_loop_range: "Index_loop vs i ret best c = ret \<or> (i \<le> Index_loop vs i ret best c \<and> Index_loop vs i ret best c < i + length vs)"
proof (induction vs arbitrary: i ret best)
  case Nil
  show ?case by simp
next
  case (Cons v vs)
  obtain cr cg cb ca where c: "Color_RGBA c = (cr, cg, cb, ca)" by (cases "Color_RGBA c") auto
  obtain vr vg vb va where v: "Color_RGBA v = (vr, vg, vb, va)" by (cases "Color_RGBA v") auto
  let ?sum = "sqDiff cr vr + sqDiff cg vg + sqDiff cb vb + sqDiff ca va"
  show ?case
    using Cons[of "Suc i" i ?sum] Cons[of "Suc i" ret best]
    by (auto simp: c v Let_def)
qed

lemma Index_less: "p \<noteq> [] \<Longrightarrow> Index p c < length p"
  using Index_loop_range[of p 0 0 "2^32 - 1" c] by (auto simp: Index_def)

lemma Index_loop_exact:
  assumes "list_all is_RGBA vs" "q \<in> set vs" "is_RGBA q" "best \<noteq> 0"
  shows "i \<le> Index_loop vs i ret best q \<and> Index_loop vs i ret best q < i + length vs
         \<and> vs ! (Index_loop vs i ret best q - i) = q"
  using assms
proof (induction vs arbitrary: i ret best)
  case Nil then show ?case by simp
next
  case (Cons v vs)
  obtain r g b a where q: "q = RGBA r g b a" using Cons.prems(3) by (cases q) auto
  obtain r' g' b' a' where v: "v = RGBA r' g' b' a'" using Cons.prems(1) by (cases v) auto
  let ?sum = "sqDiff (spread8 r) (spread8 r') + sqDiff (spread8 g) (spread8 g') + sqDiff (spread8 b) (spread8 b') + sqDiff (spread8 a) (spread8 a')"
  have z: "?sum = 0 \<longleftrightarrow> q = v"
    by (simp add: sqDiff_sum_zero sqDiff_spread8_zero q v)
  show ?case
  proof (cases "q = v")
    case True
    then have "?sum = 0" using z by simp
    moreover have "(0::uint32) < best" using Cons.prems(4) by (simp add: word_greater_zero_iff)
    ultimately show ?thesis using True by (simp add: q v Let_def)
  next
    case False
    then have nz: "?sum \<noteq> 0" using z by simp
    have qin: "q \<in> set vs" using False Cons.prems(2) by auto
    have all: "list_all is_RGBA vs" using Cons.prems(1) by simp
    have IH: "Suc i \<le> Index_loop vs (Suc i) ret' best' q \<and> Index_loop vs (Suc i) ret' best' q < Suc i + length vs
         \<and> vs ! (Index_loop vs (Suc i) ret' best' q - Suc i) = q" if "best' \<noteq> 0" for ret' best'
      using Cons.IH[OF all qin Cons.prems(3) that, of "Suc i" ret'] .
    have step: "Index_loop (v # vs) i ret best q =
        (if ?sum < best then Index_loop vs (Suc i) i ?sum q else Index_loop vs (Suc i) ret best q)"
      using nz by (simp add: q v Let_def)
    show ?thesis
    proof (cases "?sum < best")
      case True
      with step have e: "Index_loop (v # vs) i ret best q = Index_loop vs (Suc i) i ?sum q" by simp
      let ?I = "Index_loop vs (Suc i) i ?sum q"
      from IH[OF nz, of i] have I: "Suc i \<le> ?I" "?I < Suc i + length vs" "vs ! (?I - Suc i) = q"
        by simp_all
      have "?I - i = Suc (?I - Suc i)" using I(1) by linarith
      then show ?thesis unfolding e using I by simp
    next
      case False
      with step have e: "Index_loop (v # vs) i ret best q = Index_loop vs (Suc i) ret best q" by simp
      let ?I = "Index_loop vs (Suc i) ret best q"
      from IH[OF Cons.prems(4), of ret] have I: "Suc i \<le> ?I" "?I < Suc i + length vs" "vs ! (?I - Suc i) = q"
        by simp_all
      have "?I - i = Suc (?I - Suc i)" using I(1) by linarith
      then show ?thesis unfolding e using I by simp
    qed
  qed
qed

lemma Convert_idem:
  assumes "palette_table p"
  shows "\<exists>q. Convert p c = Some q \<and> Convert p q = Some q"
proof -
  have ne: "p \<noteq> []" and all: "list_all is_RGBA p" using assms by (simp_all add: palette_table_def)
  let ?q = "p ! Index p c"
  have lt: "Index p c < length p" using ne by (rule Index_less)
  then have qin: "?q \<in> set p" by simp
  then have rg: "is_RGBA ?q" using all by (simp add: list_all_iff)
  have "p ! (Index_loop p 0 0 (2^32 - 1) ?q - 0) = ?q"
    using Index_loop_exact[OF all qin rg, of "2^32 - 1" 0 0] by simp
  then have "p ! Index p ?q = ?q" by (simp add: Index_def)
  then show ?thesis using ne by (simp add: Convert_def)
qed

section \<open>Facts about the error shares\<close>

lemma wrap_int64_id: "- (2 ^ 63) \<le> v \<Longrightarrow> v < 2 ^ 63 \<Longrightarrow> wrap_int64 v = v"
  by (simp add: wrap_int64_def)

lemma wrap_int64_small: "\<bar>v\<bar> \<le> 2 ^ 40 \<Longrightarrow> wrap_int64 v = v"
  by (rule wrap_int64_id) (simp_all add: abs_le_iff)

lemma shareFloydSteinberg_div:
  assumes "\<bar>e\<bar> \<le> 2 ^ 32" "0 \<le> mul" "mul \<le> 7"
  shows "shareFloydSteinberg e mul = (e * mul) div 16"
proof -
  have "\<bar>e\<bar> * \<bar>mul\<bar> \<le> 2 ^ 32 * 7"
    using assms by (intro mult_mono) simp_all
  then have "\<bar>e * mul\<bar> \<le> 2 ^ 40" by (simp add: abs_mult)
  then have "wrap_int64 (e * mul) = e * mul" by (rule wrap_int64_small)
  then show ?thesis by (simp add: shareFloydSteinberg_def drop_bit_eq_div)
qed

lemma shareBurkes_div:
  assumes "\<bar>e\<bar> \<le> 2 ^ 32" "mul \<le> 3"
  shows "shareBurkes e mul = (e * 2 ^ mul) div 32"
proof -
  have "(2::int) ^ mul \<le> 2 ^ 3" using assms(2) by (intro power_increasing) simp_all
  then have "\<bar>e\<bar> * \<bar>2 ^ mul\<bar> \<le> 2 ^ 32 * 2 ^ 3"
    using assms(1) by (intro mult_mono) simp_all
  then have "\<bar>e * 2 ^ mul\<bar> \<le> 2 ^ 40" by (simp add: abs_mult)
  then have "wrap_int64 (e * 2 ^ mul) = e * 2 ^ mul" by (rule wrap_int64_small)
  then show ?thesis by (simp add: shareBurkes_def drop_bit_eq_div push_bit_eq_mult)
qed

lemma FS_sum_bounds:
  fixes e :: int
  defines "S \<equiv> (e * 7) div 16 + (e * 1) div 16 + (e * 5) div 16 + (e * 3) div 16"
  shows "e - 3 \<le> S" and "S \<le> e" and "S = e \<longleftrightarrow> 16 dvd e"
proof -
  define m7 m1 m5 m3 where "m7 = (e * 7) mod 16" and "m1 = (e * 1) mod 16"
    and "m5 = (e * 5) mod 16" and "m3 = (e * 3) mod 16"
  define d7 d1 d5 d3 where "d7 = (e * 7) div 16" and "d1 = (e * 1) div 16"
    and "d5 = (e * 5) div 16" and "d3 = (e * 3) div 16"
  have S: "S = d7 + d1 + d5 + d3" by (simp add: S_def d7_def d1_def d5_def d3_def)
  have b: "0 \<le> m7" "m7 < 16" "0 \<le> m1" "m1 < 16" "0 \<le> m5" "m5 < 16" "0 \<le> m3" "m3 < 16"
    by (simp_all add: m7_def m1_def m5_def m3_def)
  have d: "e * 7 = 16 * d7 + m7" "e = 16 * d1 + m1" "e * 5 = 16 * d5 + m5" "e * 3 = 16 * d3 + m3"
    by (simp_all add: m7_def m1_def m5_def m3_def d7_def d1_def d5_def d3_def)
  have tot: "16 * e = 16 * S + (m7 + m1 + m5 + m3)"
    unfolding S using d by algebra
  show "e - 3 \<le> S" using tot b by linarith
  show "S \<le> e" using tot b by linarith
  show "S = e \<longleftrightarrow> 16 dvd e"
  proof
    assume "S = e"
    then have "m1 = 0" using tot b by linarith
    then show "16 dvd e" by (simp add: m1_def dvd_eq_mod_eq_0)
  next
    assume dv: "16 dvd e"
    then have "16 dvd e * 7" "16 dvd e * 1" "16 dvd e * 5" "16 dvd e * 3"
      by (simp_all only: dvd_mult2)
    then have "m7 = 0" "m1 = 0" "m5 = 0" "m3 = 0"
      by (simp_all only: m7_def m1_def m5_def m3_def dvd_eq_mod_eq_0)
    then show "S = e" using tot by linarith
  qed
qed

section \<open>Reading and writing a valid image\<close>

lemma PixOffset_valid:
  assumes "valid_RGBA p"
  shows "PixOffset p x y = 4 * ((y - Y (MinPt (Rect p))) * Dx (Rect p) + (x - X (MinPt (Rect p))))"
  using assms by (simp add: PixOffset_def valid_RGBA_def algebra_simps)

lemma cell_range:
  assumes v: "valid_RGBA p" and i: "Point_In \<lparr>X = x, Y = y\<rparr> (Rect p)"
  shows "0 \<le> (y - Y (MinPt (Rect p))) * Dx (Rect p) + (x - X (MinPt (Rect p)))"
    and "(y - Y (MinPt (Rect p))) * Dx (Rect p) + (x - X (MinPt (Rect p))) < Dx (Rect p) * Dy (Rect p)"
proof -
  let ?w = "Dx (Rect p)" and ?h = "Dy (Rect p)"
  let ?a = "y - Y (MinPt (Rect p))" and ?b = "x - X (MinPt (Rect p))"
  have a: "0 \<le> ?a" "?a \<le> ?h - 1" and b: "0 \<le> ?b" "?b < ?w"
    using i by (simp_all add: Point_In_def Dx_def Dy_def)
  have w: "0 \<le> ?w" using b by linarith
  show "0 \<le> ?a * ?w + ?b" using a(1) w b(1) by simp
  have "?a * ?w \<le> (?h - 1) * ?w" using a(2) w by (rule mult_right_mono)
  then have "?a * ?w + ?b < (?h - 1) * ?w + ?w" using b(2) by linarith
  then show "?a * ?w + ?b < ?w * ?h" by (simp add: algebra_simps)
qed

lemma cell_inj:
  assumes i: "Point_In \<lparr>X = x, Y = y\<rparr> r" and i': "Point_In \<lparr>X = x', Y = y'\<rparr> r"
    and e: "(y - Y (MinPt r)) * Dx r + (x - X (MinPt r)) = (y' - Y (MinPt r)) * Dx r + (x' - X (MinPt r))"
  shows "x = x' \<and> y = y'"
proof -
  let ?w = "Dx r"
  have b: "0 \<le> x - X (MinPt r)" "x - X (MinPt r) < ?w" "0 \<le> x' - X (MinPt r)" "x' - X (MinPt r) < ?w"
    using i i' by (simp_all add: Point_In_def Dx_def)
  have "((y - Y (MinPt r)) * ?w + (x - X (MinPt r))) div ?w = y - Y (MinPt r)"
    using b by simp
  moreover have "((y' - Y (MinPt r)) * ?w + (x' - X (MinPt r))) div ?w = y' - Y (MinPt r)"
    using b by simp
  ultimately have y: "y = y'" using e by simp
  then show ?thesis using e by simp
qed

lemma PixOffset_range:
  assumes v: "valid_RGBA p" and i: "Point_In \<lparr>X = x, Y = y\<rparr> (Rect p)"
  shows "0 \<le> PixOffset p x y \<and> PixOffset p x y + 4 \<le> int (length (Pix p))"
proof -
  have "int (length (Pix p)) = 4 * (Dx (Rect p) * Dy (Rect p))" using v by (simp add: valid_RGBA_def)
  then show ?thesis
    using cell_range[OF v i] by (simp add: PixOffset_valid[OF v])
qed

lemma PixOffset_apart:
  assumes v: "valid_RGBA p" and i: "Point_In \<lparr>X = x, Y = y\<rparr> (Rect p)" and i': "Point_In \<lparr>X = x', Y = y'\<rparr> (Rect p)"
    and ne: "x \<noteq> x' \<or> y \<noteq> y'"
  shows "PixOffset p x y + 4 \<le> PixOffset p x' y' \<or> PixOffset p x' y' + 4 \<le> PixOffset p x y"
proof -
  have "(y - Y (MinPt (Rect p))) * Dx (Rect p) + (x - X (MinPt (Rect p))) \<noteq> (y' - Y (MinPt (Rect p))) * Dx (Rect p) + (x' - X (MinPt (Rect p)))"
    using cell_inj[OF i i'] ne by blast
  then show ?thesis by (simp add: PixOffset_valid[OF v]) linarith
qed

lemma At_img_valid:
  "valid_RGBA p \<Longrightarrow> At_img p x y = Some (px p x y)"
  using PixOffset_range[of p x y]
  by (auto simp: px_def At_img_def Let_def)

lemma rgbaModel_is_RGBA: "\<exists>r g b a. rgbaModel c = RGBA r g b a"
  by (cases c) (auto split: prod.splits)

lemma Set_img_valid:
  assumes "valid_RGBA p"
  shows "Set_img p x y c = Some (set_px p x y c)"
proof -
  obtain r g b a where c: "rgbaModel c = RGBA r g b a" using rgbaModel_is_RGBA by blast
  show ?thesis
    using PixOffset_range[OF assms, of x y]
    by (auto simp: set_px_def Set_img_def Let_def c)
qed

lemma quad_update_other:
  "j + 4 \<le> i \<or> i + 4 \<le> j \<Longrightarrow> m < 4 \<Longrightarrow>
   (xs[i := r, i + 1 := g, i + 2 := b, i + 3 := a]) ! (j + m) = xs ! (j + m)"
  by (auto simp: nth_list_update_neq)

lemma quad_update_same:
  "i + 4 \<le> length xs \<Longrightarrow>
   (xs[i := r, i + 1 := g, i + 2 := b, i + 3 := a]) ! i = r \<and>
   (xs[i := r, i + 1 := g, i + 2 := b, i + 3 := a]) ! (i + 1) = g \<and>
   (xs[i := r, i + 1 := g, i + 2 := b, i + 3 := a]) ! (i + 2) = b \<and>
   (xs[i := r, i + 1 := g, i + 2 := b, i + 3 := a]) ! (i + 3) = a"
  by (simp add: nth_list_update)

lemma PixOffset_Pix_update [simp]: "PixOffset (p\<lparr>Pix := xs\<rparr>) x y = PixOffset p x y"
  by (simp add: PixOffset_def)

lemma px_In:
  assumes "valid_RGBA p" "Point_In \<lparr>X = x, Y = y\<rparr> (Rect p)"
  shows "px p x y = RGBA (Pix p ! nat (PixOffset p x y)) (Pix p ! (nat (PixOffset p x y) + 1))
     (Pix p ! (nat (PixOffset p x y) + 2)) (Pix p ! (nat (PixOffset p x y) + 3))"
  using PixOffset_range[OF assms] assms(2) by (simp add: px_def At_img_def Let_def)

lemma Rect_set_px [simp]: "Rect (set_px p x y c) = Rect p"
  by (auto simp: set_px_def Set_img_def Let_def split: Color.splits option.splits if_splits)

lemma Stride_set_px [simp]: "Stride (set_px p x y c) = Stride p"
  by (auto simp: set_px_def Set_img_def Let_def split: Color.splits option.splits if_splits)

lemma length_Pix_set_px [simp]: "length (Pix (set_px p x y c)) = length (Pix p)"
  by (auto simp: set_px_def Set_img_def Let_def split: Color.splits option.splits if_splits)

lemma valid_set_px [simp]: "valid_RGBA p \<Longrightarrow> valid_RGBA (set_px p x y c)"
  by (simp add: valid_RGBA_def)

lemma px_set_px:
  assumes v: "valid_RGBA p"
  shows "px (set_px p x y c) x' y' =
     (if x' = x \<and> y' = y \<and> Point_In \<lparr>X = x, Y = y\<rparr> (Rect p) then rgbaModel c else px p x' y')"
proof (cases "Point_In \<lparr>X = x, Y = y\<rparr> (Rect p)")
  case False
  then have "set_px p x y c = p" by (simp add: set_px_def Set_img_def)
  then show ?thesis using False by simp
next
  case In: True
  obtain r g b a where c: "rgbaModel c = RGBA r g b a" using rgbaModel_is_RGBA by blast
  let ?i = "nat (PixOffset p x y)"
  let ?xs = "(Pix p)[?i := r, ?i + 1 := g, ?i + 2 := b, ?i + 3 := a]"
  have ri: "0 \<le> PixOffset p x y" "PixOffset p x y + 4 \<le> int (length (Pix p))"
    using PixOffset_range[OF v In] by simp_all
  have sp: "set_px p x y c = p\<lparr>Pix := ?xs\<rparr>"
    using In ri by (simp add: set_px_def Set_img_def Let_def c)
  have v': "valid_RGBA (p\<lparr>Pix := ?xs\<rparr>)" using v by (simp add: valid_RGBA_def)
  show ?thesis
  proof (cases "Point_In \<lparr>X = x', Y = y'\<rparr> (Rect p)")
    case False
    then show ?thesis using In by (auto simp: px_def At_img_def)
  next
    case In': True
    let ?j = "nat (PixOffset p x' y')"
    have rj: "0 \<le> PixOffset p x' y'" "PixOffset p x' y' + 4 \<le> int (length (Pix p))"
      using PixOffset_range[OF v In'] by simp_all
    have e: "px (set_px p x y c) x' y' = RGBA (?xs ! ?j) (?xs ! (?j + 1)) (?xs ! (?j + 2)) (?xs ! (?j + 3))"
      using px_In[OF v', of x' y'] In' by (simp add: sp)
    show ?thesis
    proof (cases "x' = x \<and> y' = y")
      case True
      have "?i + 4 \<le> length (Pix p)" using ri by linarith
      from quad_update_same[OF this, of r g b a] show ?thesis
        using True In e c by simp
    next
      case False
      then have "PixOffset p x y + 4 \<le> PixOffset p x' y' \<or> PixOffset p x' y' + 4 \<le> PixOffset p x y"
        using PixOffset_apart[OF v In In'] by blast
      then have ap: "?j + 4 \<le> ?i \<or> ?i + 4 \<le> ?j" using ri rj by linarith
      have "?xs ! (?j + 0) = Pix p ! (?j + 0)" "?xs ! (?j + 1) = Pix p ! (?j + 1)"
           "?xs ! (?j + 2) = Pix p ! (?j + 2)" "?xs ! (?j + 3) = Pix p ! (?j + 3)"
        using quad_update_other[OF ap, of 0 "Pix p" r g b a] quad_update_other[OF ap, of 1 "Pix p" r g b a]
          quad_update_other[OF ap, of 2 "Pix p" r g b a] quad_update_other[OF ap, of 3 "Pix p" r g b a]
        by simp_all
      then have "px (set_px p x y c) x' y' = px p x' y'" using e px_In[OF v In'] by simp
      then show ?thesis using False by auto
    qed
  qed
qed

section \<open>What the kernels do to a valid image\<close>

lemma RGBA_At_valid:
  "p < length h \<Longrightarrow> valid_RGBA (h ! p) \<Longrightarrow> RGBA_At p x y h = Some (px (h ! p) x y)"
  by (simp add: RGBA_At_def At_img_valid)

lemma RGBA_Set_valid:
  "p < length h \<Longrightarrow> valid_RGBA (h ! p) \<Longrightarrow> RGBA_Set p x y c h = Some (h[p := set_px (h ! p) x y c])"
  by (simp add: RGBA_Set_def Set_img_valid)

lemma px_set_px_other:
  "valid_RGBA p \<Longrightarrow> x' \<noteq> x \<or> y' \<noteq> y \<Longrightarrow> px (set_px p x y c) x' y' = px p x' y'"
  by (auto simp: px_set_px)

lemma FloydSteinberg_valid:
  assumes p: "p < length h" and v: "valid_RGBA (h ! p)"
  shows "\<exists>b. FloydSteinberg x y p err h = Some (h[p := b]) \<and> valid_RGBA b \<and> Rect b = Rect (h ! p) \<and>
     (\<forall>x' y'. px b x' y' =
        (if Point_In \<lparr>X = x', Y = y'\<rparr> (Rect (h ! p)) \<and> x' = x + 1 \<and> y' = y
           then rgbaModel (applyWeightsFloydSteinber (px (h ! p) x' y') err 7)
         else if Point_In \<lparr>X = x', Y = y'\<rparr> (Rect (h ! p)) \<and> x' = x + 1 \<and> y' = y + 1
           then rgbaModel (applyWeightsFloydSteinber (px (h ! p) x' y') err 1)
         else if Point_In \<lparr>X = x', Y = y'\<rparr> (Rect (h ! p)) \<and> x' = x \<and> y' = y + 1
           then rgbaModel (applyWeightsFloydSteinber (px (h ! p) x' y') err 5)
         else if Point_In \<lparr>X = x', Y = y'\<rparr> (Rect (h ! p)) \<and> x' = x - 1 \<and> y' = y + 1
           then rgbaModel (applyWeightsFloydSteinber (px (h ! p) x' y') err 3)
         else px (h ! p) x' y'))"
proof -
  let ?b0 = "h ! p"
  let ?b1 = "set_px ?b0 (x + 1) y (applyWeightsFloydSteinber (px ?b0 (x + 1) y) err 7)"
  let ?b2 = "set_px ?b1 (x + 1) (y + 1) (applyWeightsFloydSteinber (px ?b1 (x + 1) (y + 1)) err 1)"
  let ?b3 = "set_px ?b2 x (y + 1) (applyWeightsFloydSteinber (px ?b2 x (y + 1)) err 5)"
  let ?b4 = "set_px ?b3 (x - 1) (y + 1) (applyWeightsFloydSteinber (px ?b3 (x - 1) (y + 1)) err 3)"
  have run: "FloydSteinberg x y p err h = Some (h[p := ?b4])"
    using p v by (simp add: FloydSteinberg_def RGBA_At_valid RGBA_Set_valid)
  have v4: "valid_RGBA ?b4" using v by simp
  have r4: "Rect ?b4 = Rect ?b0" by simp
  have px4: "px ?b4 x' y' =
        (if Point_In \<lparr>X = x', Y = y'\<rparr> (Rect ?b0) \<and> x' = x + 1 \<and> y' = y
           then rgbaModel (applyWeightsFloydSteinber (px ?b0 x' y') err 7)
         else if Point_In \<lparr>X = x', Y = y'\<rparr> (Rect ?b0) \<and> x' = x + 1 \<and> y' = y + 1
           then rgbaModel (applyWeightsFloydSteinber (px ?b0 x' y') err 1)
         else if Point_In \<lparr>X = x', Y = y'\<rparr> (Rect ?b0) \<and> x' = x \<and> y' = y + 1
           then rgbaModel (applyWeightsFloydSteinber (px ?b0 x' y') err 5)
         else if Point_In \<lparr>X = x', Y = y'\<rparr> (Rect ?b0) \<and> x' = x - 1 \<and> y' = y + 1
           then rgbaModel (applyWeightsFloydSteinber (px ?b0 x' y') err 3)
         else px ?b0 x' y')" for x' y'
  proof -
    consider "x' = x + 1 \<and> y' = y" | "x' = x + 1 \<and> y' = y + 1" | "x' = x \<and> y' = y + 1"
      | "x' = x - 1 \<and> y' = y + 1"
      | "x' \<noteq> x + 1 \<or> y' \<noteq> y" "x' \<noteq> x + 1 \<or> y' \<noteq> y + 1" "x' \<noteq> x \<or> y' \<noteq> y + 1"
        "x' \<noteq> x - 1 \<or> y' \<noteq> y + 1"
      by blast
    then show ?thesis
    proof cases
      case 5
      have "px ?b4 x' y' = px ?b0 x' y'"
        using v 5 by (simp add: px_set_px_other)
      then show ?thesis using 5 by auto
    qed (use v in \<open>simp_all add: px_set_px\<close>)
  qed
  show ?thesis using run v4 r4 px4 by blast
qed

lemma forward_kernel_FloydSteinberg: "forward_kernel FloydSteinberg"
  unfolding forward_kernel_def
proof (intro allI impI)
  fix x y p err h
  assume a: "p < length h \<and> valid_RGBA (h ! p)"
  from FloydSteinberg_valid[of p h x y err] a
  obtain b where b: "FloydSteinberg x y p err h = Some (h[p := b])" "valid_RGBA b" "Rect b = Rect (h ! p)"
    and pxb: "\<And>x' y'. px b x' y' =
        (if Point_In \<lparr>X = x', Y = y'\<rparr> (Rect (h ! p)) \<and> x' = x + 1 \<and> y' = y
           then rgbaModel (applyWeightsFloydSteinber (px (h ! p) x' y') err 7)
         else if Point_In \<lparr>X = x', Y = y'\<rparr> (Rect (h ! p)) \<and> x' = x + 1 \<and> y' = y + 1
           then rgbaModel (applyWeightsFloydSteinber (px (h ! p) x' y') err 1)
         else if Point_In \<lparr>X = x', Y = y'\<rparr> (Rect (h ! p)) \<and> x' = x \<and> y' = y + 1
           then rgbaModel (applyWeightsFloydSteinber (px (h ! p) x' y') err 5)
         else if Point_In \<lparr>X = x', Y = y'\<rparr> (Rect (h ! p)) \<and> x' = x - 1 \<and> y' = y + 1
           then rgbaModel (applyWeightsFloydSteinber (px (h ! p) x' y') err 3)
         else px (h ! p) x' y')"
    by blast
  have "px b x' y' = px (h ! p) x' y'" if "y' < y \<or> (y' = y \<and> x' \<le> x)" for x' y'
    using that by (auto simp: pxb)
  then show "\<exists>b. FloydSteinberg x y p err h = Some (h[p := b]) \<and> valid_RGBA b \<and> Rect b = Rect (h ! p) \<and>
           (\<forall>x' y'. y' < y \<or> y' = y \<and> x' \<le> x \<longrightarrow> px b x' y' = px (h ! p) x' y')"
    using b by blast
qed

lemma Burkes_valid:
  assumes p: "p < length h" and v: "valid_RGBA (h ! p)"
  shows "\<exists>b. Burkes x y p err h = Some (h[p := b]) \<and> valid_RGBA b \<and> Rect b = Rect (h ! p) \<and>
     (\<forall>x' y'. px b x' y' =
        (if Point_In \<lparr>X = x', Y = y'\<rparr> (Rect (h ! p)) \<and> x' = x + 1 \<and> y' = y
           then rgbaModel (applyWeightsBurkes (px (h ! p) x' y') err 3)
         else if Point_In \<lparr>X = x', Y = y'\<rparr> (Rect (h ! p)) \<and> x' = x + 2 \<and> y' = y
           then rgbaModel (applyWeightsBurkes (px (h ! p) x' y') err 2)
         else if Point_In \<lparr>X = x', Y = y'\<rparr> (Rect (h ! p)) \<and> x' = x - 2 \<and> y' = y + 1
           then rgbaModel (applyWeightsBurkes (px (h ! p) x' y') err 1)
         else if Point_In \<lparr>X = x', Y = y'\<rparr> (Rect (h ! p)) \<and> x' = x - 1 \<and> y' = y + 1
           then rgbaModel (applyWeightsBurkes (px (h ! p) x' y') err 2)
         else if Point_In \<lparr>X = x', Y = y'\<rparr> (Rect (h ! p)) \<and> x' = x \<and> y' = y + 1
           then rgbaModel (applyWeightsBurkes (px (h ! p) x' y') err 3)
         else if Point_In \<lparr>X = x', Y = y'\<rparr> (Rect (h ! p)) \<and> x' = x + 1 \<and> y' = y + 1
           then rgbaModel (applyWeightsBurkes (px (h ! p) x' y') err 2)
         else if Point_In \<lparr>X = x', Y = y'\<rparr> (Rect (h ! p)) \<and> x' = x + 2 \<and> y' = y + 1
           then rgbaModel (applyWeightsBurkes (px (h ! p) x' y') err 1)
         else px (h ! p) x' y'))"
proof -
  let ?b0 = "h ! p"
  let ?b1 = "set_px ?b0 (x + 1) y (applyWeightsBurkes (px ?b0 (x + 1) y) err 3)"
  let ?b2 = "set_px ?b1 (x + 2) y (applyWeightsBurkes (px ?b1 (x + 2) y) err 2)"
  let ?b3 = "set_px ?b2 (x - 2) (y + 1) (applyWeightsBurkes (px ?b2 (x - 2) (y + 1)) err 1)"
  let ?b4 = "set_px ?b3 (x - 1) (y + 1) (applyWeightsBurkes (px ?b3 (x - 1) (y + 1)) err 2)"
  let ?b5 = "set_px ?b4 x (y + 1) (applyWeightsBurkes (px ?b4 x (y + 1)) err 3)"
  let ?b6 = "set_px ?b5 (x + 1) (y + 1) (applyWeightsBurkes (px ?b5 (x + 1) (y + 1)) err 2)"
  let ?b7 = "set_px ?b6 (x + 2) (y + 1) (applyWeightsBurkes (px ?b6 (x + 2) (y + 1)) err 1)"
  have run: "Burkes x y p err h = Some (h[p := ?b7])"
    using p v by (simp add: Burkes_def RGBA_At_valid RGBA_Set_valid)
  have v7: "valid_RGBA ?b7" using v by simp
  have r7: "Rect ?b7 = Rect ?b0" by simp
  have px7: "px ?b7 x' y' =
        (if Point_In \<lparr>X = x', Y = y'\<rparr> (Rect ?b0) \<and> x' = x + 1 \<and> y' = y
           then rgbaModel (applyWeightsBurkes (px ?b0 x' y') err 3)
         else if Point_In \<lparr>X = x', Y = y'\<rparr> (Rect ?b0) \<and> x' = x + 2 \<and> y' = y
           then rgbaModel (applyWeightsBurkes (px ?b0 x' y') err 2)
         else if Point_In \<lparr>X = x', Y = y'\<rparr> (Rect ?b0) \<and> x' = x - 2 \<and> y' = y + 1
           then rgbaModel (applyWeightsBurkes (px ?b0 x' y') err 1)
         else if Point_In \<lparr>X = x', Y = y'\<rparr> (Rect ?b0) \<and> x' = x - 1 \<and> y' = y + 1
           then rgbaModel (applyWeightsBurkes (px ?b0 x' y') err 2)
         else if Point_In \<lparr>X = x', Y = y'\<rparr> (Rect ?b0) \<and> x' = x \<and> y' = y + 1
           then rgbaModel (applyWeightsBurkes (px ?b0 x' y') err 3)
         else if Point_In \<lparr>X = x', Y = y'\<rparr> (Rect ?b0) \<and> x' = x + 1 \<and> y' = y + 1
           then rgbaModel (applyWeightsBurkes (px ?b0 x' y') err 2)
         else if Point_In \<lparr>X = x', Y = y'\<rparr> (Rect ?b0) \<and> x' = x + 2 \<and> y' = y + 1
           then rgbaModel (applyWeightsBurkes (px ?b0 x' y') err 1)
         else px ?b0 x' y')" for x' y'
  proof -
    consider "x' = x + 1 \<and> y' = y" | "x' = x + 2 \<and> y' = y" | "x' = x - 2 \<and> y' = y + 1"
      | "x' = x - 1 \<and> y' = y + 1" | "x' = x \<and> y' = y + 1" | "x' = x + 1 \<and> y' = y + 1"
      | "x' = x + 2 \<and> y' = y + 1"
      | "x' \<noteq> x + 1 \<or> y' \<noteq> y" "x' \<noteq> x + 2 \<or> y' \<noteq> y" "x' \<noteq> x - 2 \<or> y' \<noteq> y + 1"
        "x' \<noteq> x - 1 \<or> y' \<noteq> y + 1" "x' \<noteq> x \<or> y' \<noteq> y + 1" "x' \<noteq> x + 1 \<or> y' \<noteq> y + 1"
        "x' \<noteq> x + 2 \<or> y' \<noteq> y + 1"
      by blast
    then show ?thesis
    proof cases
      case 8
      have "px ?b7 x' y' = px ?b0 x' y'"
        using v 8 by (simp add: px_set_px_other)
      then show ?thesis using 8 by auto
    qed (use v in \<open>simp_all add: px_set_px\<close>)
  qed
  show ?thesis using run v7 r7 px7 by blast
qed

lemma forward_kernel_Burkes: "forward_kernel Burkes"
  unfolding forward_kernel_def
proof (intro allI impI)
  fix x y p err h
  assume a: "p < length h \<and> valid_RGBA (h ! p)"
  from Burkes_valid[of p h x y err] a
  obtain b where b: "Burkes x y p err h = Some (h[p := b])" "valid_RGBA b" "Rect b = Rect (h ! p)"
    and pxb: "\<And>x' y'. px b x' y' =
        (if Point_In \<lparr>X = x', Y = y'\<rparr> (Rect (h ! p)) \<and> x' = x + 1 \<and> y' = y
           then rgbaModel (applyWeightsBurkes (px (h ! p) x' y') err 3)
         else if Point_In \<lparr>X = x', Y = y'\<rparr> (Rect (h ! p)) \<and> x' = x + 2 \<and> y' = y
           then rgbaModel (applyWeightsBurkes (px (h ! p) x' y') err 2)
         else if Point_In \<lparr>X = x', Y = y'\<rparr> (Rect (h ! p)) \<and> x' = x - 2 \<and> y' = y + 1
           then rgbaModel (applyWeightsBurkes (px (h ! p) x' y') err 1)
         else if Point_In \<lparr>X = x', Y = y'\<rparr> (Rect (h ! p)) \<and> x' = x - 1 \<and> y' = y + 1
           then rgbaModel (applyWeightsBurkes (px (h ! p) x' y') err 2)
         else if Point_In \<lparr>X = x', Y = y'\<rparr> (Rect (h ! p)) \<and> x' = x \<and> y' = y + 1
           then rgbaModel (applyWeightsBurkes (px (h ! p) x' y') err 3)
         else if Point_In \<lparr>X = x', Y = y'\<rparr> (Rect (h ! p)) \<and> x' = x + 1 \<and> y' = y + 1
           then rgbaModel (applyWeightsBurkes (px (h ! p) x' y') err 2)
         else if Point_In \<lparr>X = x', Y = y'\<rparr> (Rect (h ! p)) \<and> x' = x + 2 \<and> y' = y + 1
           then rgbaModel (applyWeightsBurkes (px (h ! p) x' y') err 1)
         else px (h ! p) x' y')"
    by blast
  have "px b x' y' = px (h ! p) x' y'" if "y' < y \<or> (y' = y \<and> x' \<le> x)" for x' y'
    using that by (auto simp: pxb)
  then show "\<exists>b. Burkes x y p err h = Some (h[p := b]) \<and> valid_RGBA b \<and> Rect b = Rect (h ! p) \<and>
           (\<forall>x' y'. y' < y \<or> y' = y \<and> x' \<le> x \<longrightarrow> px b x' y' = px (h ! p) x' y')"
    using b by blast
qed

section \<open>The loops of the engine\<close>

lemma Dither_cols_inv:
  assumes fk: "forward_kernel algo" and Q: "\<And>c. Q (rgbaModel (finder c))"
    and p: "p < length h" and v: "valid_RGBA (h ! p)" and r: "Rect (h ! p) = rect"
    and pre: "\<And>x' y'. Point_In \<lparr>X = x', Y = y'\<rparr> rect \<Longrightarrow> y' < y \<or> (y' = y \<and> x' < x) \<Longrightarrow> Q (px (h ! p) x' y')"
  shows "\<exists>b. Dither_cols x y rect p algo finder h = Some (h[p := b]) \<and> valid_RGBA b \<and> Rect b = rect \<and>
     (\<forall>x' y'. Point_In \<lparr>X = x', Y = y'\<rparr> rect \<and> y' \<le> y \<longrightarrow> Q (px b x' y'))"
  using p v r pre
proof (induction "nat (X (MaxPt rect) - x)" arbitrary: x h)
  case 0
  then have fin: "\<not> x < X (MaxPt rect)" by simp
  have "Q (px (h ! p) x' y')" if "Point_In \<lparr>X = x', Y = y'\<rparr> rect" "y' \<le> y" for x' y'
  proof -
    have "x' < X (MaxPt rect)" using that(1) by (simp add: Point_In_def)
    then have "y' < y \<or> (y' = y \<and> x' < x)" using that(2) fin by linarith
    then show ?thesis using "0.prems"(4) that(1) by blast
  qed
  moreover have "Dither_cols x y rect p algo finder h = Some (h[p := h ! p])"
    using fin by simp
  ultimately show ?case using "0.prems" by blast
next
  case (Suc n)
  then have lt: "x < X (MaxPt rect)" by linarith
  let ?old = "px (h ! p) x y"
  let ?new = "finder ?old"
  let ?b1 = "set_px (h ! p) x y ?new"
  let ?h1 = "h[p := ?b1]"
  have p1: "p < length ?h1" using Suc.prems(1) by simp
  have v1: "valid_RGBA (?h1 ! p)" using Suc.prems(1,2) by simp
  from fk[unfolded forward_kernel_def, rule_format, of p ?h1 x y "colorDiff ?old ?new"] p1 v1
  obtain b2 where b2: "algo x y p (colorDiff ?old ?new) ?h1 = Some (?h1[p := b2])" "valid_RGBA b2"
      "Rect b2 = Rect (?h1 ! p)"
      and keep: "\<And>x' y'. y' < y \<or> (y' = y \<and> x' \<le> x) \<Longrightarrow> px b2 x' y' = px (?h1 ! p) x' y'"
    by blast
  let ?h2 = "h[p := b2]"
  have h2: "?h1[p := b2] = ?h2" by simp
  have step: "Dither_cols x y rect p algo finder h = Dither_cols (x + 1) y rect p algo finder ?h2"
    using lt Suc.prems(1,2) b2(1)
    by (subst Dither_cols.simps) (simp add: RGBA_At_valid RGBA_Set_valid Let_def)
  have n: "n = nat (X (MaxPt rect) - (x + 1))" using Suc.hyps(2) by linarith
  have p2: "p < length ?h2" using Suc.prems(1) by simp
  have v2: "valid_RGBA (?h2 ! p)" using Suc.prems(1) b2(2) by simp
  have r2: "Rect (?h2 ! p) = rect" using Suc.prems(1,3) b2(3) by simp
  have pre2: "Q (px (?h2 ! p) x' y')"
    if i: "Point_In \<lparr>X = x', Y = y'\<rparr> rect" and o: "y' < y \<or> (y' = y \<and> x' < x + 1)" for x' y'
  proof -
    have k: "px b2 x' y' = px ?b1 x' y'" using keep[of y' x'] o Suc.prems(1) by auto
    show ?thesis
    proof (cases "x' = x \<and> y' = y")
      case True
      then have "px ?b1 x' y' = rgbaModel ?new"
        using i Suc.prems(2,3) by (simp add: px_set_px)
      then show ?thesis using k Q Suc.prems(1) by simp
    next
      case False
      then have "px ?b1 x' y' = px (h ! p) x' y'" using Suc.prems(2) by (auto simp: px_set_px)
      moreover have "y' < y \<or> (y' = y \<and> x' < x)" using o False by linarith
      ultimately show ?thesis using Suc.prems(4)[OF i] k Suc.prems(1) by simp
    qed
  qed
  from Suc.hyps(1)[OF n p2 v2 r2 pre2]
  obtain b where "Dither_cols (x + 1) y rect p algo finder ?h2 = Some (?h2[p := b])" "valid_RGBA b" "Rect b = rect"
     "\<forall>x' y'. Point_In \<lparr>X = x', Y = y'\<rparr> rect \<and> y' \<le> y \<longrightarrow> Q (px b x' y')"
    by blast
  then show ?case using step by auto
qed

lemma Dither_rows_inv:
  assumes fk: "forward_kernel algo" and Q: "\<And>c. Q (rgbaModel (finder c))"
    and p: "p < length h" and v: "valid_RGBA (h ! p)" and r: "Rect (h ! p) = rect"
    and pre: "\<And>x' y'. Point_In \<lparr>X = x', Y = y'\<rparr> rect \<Longrightarrow> y' < y \<Longrightarrow> Q (px (h ! p) x' y')"
  shows "\<exists>b. Dither_rows y rect p algo finder h = Some (h[p := b]) \<and> valid_RGBA b \<and> Rect b = rect \<and>
     (\<forall>x' y'. Point_In \<lparr>X = x', Y = y'\<rparr> rect \<longrightarrow> Q (px b x' y'))"
  using p v r pre
proof (induction "nat (Y (MaxPt rect) - y)" arbitrary: y h)
  case 0
  then have fin: "\<not> y < Y (MaxPt rect)" by simp
  have "Q (px (h ! p) x' y')" if "Point_In \<lparr>X = x', Y = y'\<rparr> rect" for x' y'
  proof -
    have "y' < Y (MaxPt rect)" using that by (simp add: Point_In_def)
    then have "y' < y" using fin by linarith
    then show ?thesis using "0.prems"(4) that by blast
  qed
  moreover have "Dither_rows y rect p algo finder h = Some (h[p := h ! p])"
    using fin by simp
  ultimately show ?case using "0.prems" by blast
next
  case (Suc n)
  then have lt: "y < Y (MaxPt rect)" by linarith
  have pre1: "Q (px (h ! p) x' y')"
    if "Point_In \<lparr>X = x', Y = y'\<rparr> rect" "y' < y \<or> (y' = y \<and> x' < X (MinPt rect))" for x' y'
    using that Suc.prems(4)[of x' y'] by (auto simp: Point_In_def)
  from Dither_cols_inv[of algo Q finder p h rect y "X (MinPt rect)", OF fk Q Suc.prems(1,2,3) pre1]
  obtain b1 where b1: "Dither_cols (X (MinPt rect)) y rect p algo finder h = Some (h[p := b1])"
      "valid_RGBA b1" "Rect b1 = rect"
      and q1: "\<And>x' y'. Point_In \<lparr>X = x', Y = y'\<rparr> rect \<Longrightarrow> y' \<le> y \<Longrightarrow> Q (px b1 x' y')"
    by blast
  let ?h1 = "h[p := b1]"
  have step: "Dither_rows y rect p algo finder h = Dither_rows (y + 1) rect p algo finder ?h1"
    using lt b1(1) by (subst Dither_rows.simps) simp
  have n: "n = nat (Y (MaxPt rect) - (y + 1))" using Suc.hyps(2) by linarith
  have p1: "p < length ?h1" using Suc.prems(1) by simp
  have v1: "valid_RGBA (?h1 ! p)" using Suc.prems(1) b1(2) by simp
  have r1: "Rect (?h1 ! p) = rect" using Suc.prems(1) b1(3) by simp
  have pre2: "Q (px (?h1 ! p) x' y')" if "Point_In \<lparr>X = x', Y = y'\<rparr> rect" "y' < y + 1" for x' y'
    using q1[of x' y'] that Suc.prems(1) by simp
  from Suc.hyps(1)[OF n p1 v1 r1 pre2]
  obtain b where "Dither_rows (y + 1) rect p algo finder ?h1 = Some (?h1[p := b])" "valid_RGBA b" "Rect b = rect"
     "\<forall>x' y'. Point_In \<lparr>X = x', Y = y'\<rparr> rect \<longrightarrow> Q (px b x' y')"
    by blast
  then show ?case using step by auto
qed

lemma foldM_option_inv:
  assumes "\<And>x s. I s \<Longrightarrow> \<exists>s'. f x s = Some s' \<and> I s'" and "I s"
  shows "\<exists>s'. foldM_option f xs s = Some s' \<and> I s'"
  using assms(2)
proof (induction xs arbitrary: s)
  case Nil
  then show ?case by simp
next
  case (Cons x xs)
  from assms(1)[OF Cons.prems] obtain s1 where "f x s = Some s1" "I s1" by blast
  then show ?case using Cons.IH[of s1] by simp
qed

lemma draw_point_inv:
  assumes src: "valid_Image src h0" and v: "valid_RGBA b" 
  shows "\<exists>b'. draw_point (length h0) r src sp y x (h0 @ [b]) = Some (h0 @ [b']) \<and> valid_RGBA b' \<and> Rect b' = Rect b"
proof (cases src)
  case (RGBARef a)
  then have a: "a < length h0" "valid_RGBA (h0 ! a)" using src by simp_all
  then have "valid_RGBA ((h0 @ [b]) ! a)" by (simp add: nth_append)
  then show ?thesis using a v RGBARef
    by (auto simp: draw_point_def Let_def RGBA_At_valid RGBA_Set_valid nth_append)
next
  case (ImageValue r' f)
  then show ?thesis using v
    by (auto simp: draw_point_def Let_def RGBA_Set_valid)
qed

lemma draw_Draw_Src_inv:
  assumes src: "valid_Image src h0" and v: "valid_RGBA b"
  shows "\<exists>b'. draw_Draw_Src (length h0) r src sp (h0 @ [b]) = Some (h0 @ [b']) \<and> valid_RGBA b' \<and> Rect b' = Rect b"
proof -
  let ?I = "\<lambda>s. \<exists>b'. s = h0 @ [b'] \<and> valid_RGBA b' \<and> Rect b' = Rect b"
  have pt: "\<exists>s'. draw_point (length h0) r src sp y x s = Some s' \<and> ?I s'" if "?I s" for x y s
    using that draw_point_inv[OF src, of _ r sp y x] by force
  have row: "\<exists>s'. foldM_option (draw_point (length h0) r src sp y) xs s = Some s' \<and> ?I s'" if "?I s" for y xs s
    using pt that by (rule foldM_option_inv)
  have "\<exists>s'. foldM_option (\<lambda>y. foldM_option (draw_point (length h0) r src sp y) [X (MinPt r) .. X (MaxPt r) - 1])
       [Y (MinPt r) .. Y (MaxPt r) - 1] (h0 @ [b]) = Some s' \<and> ?I s'"
    by (rule foldM_option_inv[where I = ?I]) (use row v in auto)
  then show ?thesis by (auto simp: draw_Draw_Src_def)
qed

lemma Dither_result:
  assumes src: "valid_Image img h" and fk: "forward_kernel algo" and Q: "\<And>c. Q (rgbaModel (finder c))"
  shows "\<exists>r b. Bounds img h = Some r \<and> Dither img algo finder h = Some (length h, h @ [b]) \<and>
     valid_RGBA b \<and> Rect b = r \<and> (\<forall>x y. Point_In \<lparr>X = x, Y = y\<rparr> r \<longrightarrow> Q (px b x y))"
proof -
  obtain r where r: "Bounds img h = Some r" "0 \<le> Dx r" "0 \<le> Dy r"
    using src by (cases img) (auto simp: valid_RGBA_def)
  let ?b0 = "\<lparr>Pix = replicate (nat (4 * Dx r * Dy r)) 0, Stride = 4 * Dx r, Rect = r\<rparr>"
  have new: "NewRGBA r h = Some (length h, h @ [?b0])" using r by (simp add: NewRGBA_def)
  have v0: "valid_RGBA ?b0" using r by (simp add: valid_RGBA_def)
  from draw_Draw_Src_inv[OF src v0, of r "MinPt r"]
  obtain b1 where b1: "draw_Draw_Src (length h) r img (MinPt r) (h @ [?b0]) = Some (h @ [b1])"
     "valid_RGBA b1" "Rect b1 = r" by auto
  let ?h1 = "h @ [b1]"
  have p: "length h < length ?h1" by simp
  have v1: "valid_RGBA (?h1 ! length h)" using b1(2) by simp
  have r1: "Rect (?h1 ! length h) = r" using b1(3) by simp
  have pre: "Q (px (?h1 ! length h) x' y')" if "Point_In \<lparr>X = x', Y = y'\<rparr> r" "y' < Y (MinPt r)" for x' y'
    using that by (simp add: Point_In_def)
  from Dither_rows_inv[of algo Q finder "length h" ?h1 r "Y (MinPt r)", OF fk Q p v1 r1 pre]
  obtain b2 where b2: "Dither_rows (Y (MinPt r)) r (length h) algo finder ?h1 = Some (?h1[length h := b2])"
     "valid_RGBA b2" "Rect b2 = r" "\<forall>x' y'. Point_In \<lparr>X = x', Y = y'\<rparr> r \<longrightarrow> Q (px b2 x' y')"
    by blast
  have "Dither img algo finder h = Some (length h, h @ [b2])"
    using r(1) new b1(1) b2(1) by (simp add: Dither_def)
  then show ?thesis using r(1) b2 by blast
qed

section \<open>Facts shared by the claims\<close>



lemma BW_two_values: "BlackAndWhitePalette c = Gray16 0 \<or> BlackAndWhitePalette c = Gray16 0xFFFF"
  by (simp add: BW_char split: prod.splits)

lemma forward_kernel_package: "algo = FloydSteinberg \<or> algo = Burkes \<Longrightarrow> forward_kernel algo"
  using forward_kernel_FloydSteinberg forward_kernel_Burkes by blast

lemma RGBA_At_last: "valid_RGBA b \<Longrightarrow> RGBA_At (length h) x y (h @ [b]) = Some (px b x y)"
  by (simp add: RGBA_At_valid)

lemma spread8_replicated: "\<exists>k\<le>255. unat (spread8 v) = k * 0x101"
proof -
  have "unat v \<le> 255" using unsigned_less[of v, where 'a = nat] by simp
  then show ?thesis using spread8_unat[of v] by (intro exI[of _ "unat v"]) simp
qed

lemma px_is_RGBA: "\<exists>r g b a. px p x y = RGBA r g b a"
  by (auto simp: px_def At_img_def Let_def)

lemma rgbaModel_high_bytes:
  "\<not> is_RGBA c \<Longrightarrow> rgbaModel c = (case Color_RGBA c of (r, g, b, a) \<Rightarrow>
     RGBA (ucast (drop_bit 8 r)) (ucast (drop_bit 8 g)) (ucast (drop_bit 8 b)) (ucast (drop_bit 8 a)))"
  by (cases c) simp_all

lemma FloydSteinberg_heap:
  assumes p: "p < length h" and v: "valid_RGBA (h ! p)"
  shows "\<exists>h'. FloydSteinberg x y p err h = Some h' \<and> length h' = length h \<and>
     (\<forall>q. q \<noteq> p \<longrightarrow> h' ! q = h ! q) \<and> valid_RGBA (h' ! p) \<and> Rect (h' ! p) = Rect (h ! p) \<and>
     (\<forall>x' y'. RGBA_At p x' y' h' =
        (if Point_In \<lparr>X = x', Y = y'\<rparr> (Rect (h ! p)) \<and> x' = x + 1 \<and> y' = y
           then map_option (\<lambda>c. rgbaModel (applyWeightsFloydSteinber c err 7)) (RGBA_At p x' y' h)
         else if Point_In \<lparr>X = x', Y = y'\<rparr> (Rect (h ! p)) \<and> x' = x + 1 \<and> y' = y + 1
           then map_option (\<lambda>c. rgbaModel (applyWeightsFloydSteinber c err 1)) (RGBA_At p x' y' h)
         else if Point_In \<lparr>X = x', Y = y'\<rparr> (Rect (h ! p)) \<and> x' = x \<and> y' = y + 1
           then map_option (\<lambda>c. rgbaModel (applyWeightsFloydSteinber c err 5)) (RGBA_At p x' y' h)
         else if Point_In \<lparr>X = x', Y = y'\<rparr> (Rect (h ! p)) \<and> x' = x - 1 \<and> y' = y + 1
           then map_option (\<lambda>c. rgbaModel (applyWeightsFloydSteinber c err 3)) (RGBA_At p x' y' h)
         else RGBA_At p x' y' h))"
proof -
  from FloydSteinberg_valid[OF p v, of x y err]
  obtain b where b: "FloydSteinberg x y p err h = Some (h[p := b])" "valid_RGBA b" "Rect b = Rect (h ! p)"
    and pxb: "\<And>x' y'. px b x' y' =
        (if Point_In \<lparr>X = x', Y = y'\<rparr> (Rect (h ! p)) \<and> x' = x + 1 \<and> y' = y
           then rgbaModel (applyWeightsFloydSteinber (px (h ! p) x' y') err 7)
         else if Point_In \<lparr>X = x', Y = y'\<rparr> (Rect (h ! p)) \<and> x' = x + 1 \<and> y' = y + 1
           then rgbaModel (applyWeightsFloydSteinber (px (h ! p) x' y') err 1)
         else if Point_In \<lparr>X = x', Y = y'\<rparr> (Rect (h ! p)) \<and> x' = x \<and> y' = y + 1
           then rgbaModel (applyWeightsFloydSteinber (px (h ! p) x' y') err 5)
         else if Point_In \<lparr>X = x', Y = y'\<rparr> (Rect (h ! p)) \<and> x' = x - 1 \<and> y' = y + 1
           then rgbaModel (applyWeightsFloydSteinber (px (h ! p) x' y') err 3)
         else px (h ! p) x' y')"
    by blast
  let ?h = "h[p := b]"
  have a': "RGBA_At p x' y' ?h = Some (px b x' y')" for x' y'
    using p b(2) by (simp add: RGBA_At_valid)
  have a: "RGBA_At p x' y' h = Some (px (h ! p) x' y')" for x' y'
    using p v by (simp add: RGBA_At_valid)
  have f: "length ?h = length h" "\<forall>q. q \<noteq> p \<longrightarrow> ?h ! q = h ! q" "valid_RGBA (?h ! p)" "Rect (?h ! p) = Rect (h ! p)"
    using p b(2,3) by simp_all
  have "\<forall>x' y'. RGBA_At p x' y' ?h =
        (if Point_In \<lparr>X = x', Y = y'\<rparr> (Rect (h ! p)) \<and> x' = x + 1 \<and> y' = y
           then map_option (\<lambda>c. rgbaModel (applyWeightsFloydSteinber c err 7)) (RGBA_At p x' y' h)
         else if Point_In \<lparr>X = x', Y = y'\<rparr> (Rect (h ! p)) \<and> x' = x + 1 \<and> y' = y + 1
           then map_option (\<lambda>c. rgbaModel (applyWeightsFloydSteinber c err 1)) (RGBA_At p x' y' h)
         else if Point_In \<lparr>X = x', Y = y'\<rparr> (Rect (h ! p)) \<and> x' = x \<and> y' = y + 1
           then map_option (\<lambda>c. rgbaModel (applyWeightsFloydSteinber c err 5)) (RGBA_At p x' y' h)
         else if Point_In \<lparr>X = x', Y = y'\<rparr> (Rect (h ! p)) \<and> x' = x - 1 \<and> y' = y + 1
           then map_option (\<lambda>c. rgbaModel (applyWeightsFloydSteinber c err 3)) (RGBA_At p x' y' h)
         else RGBA_At p x' y' h)"
    by (simp only: a a' pxb option.map if_distrib[of Some] simp_thms)
  then show ?thesis using b(1) f by blast
qed

lemma Burkes_heap:
  assumes p: "p < length h" and v: "valid_RGBA (h ! p)"
  shows "\<exists>h'. Burkes x y p err h = Some h' \<and> length h' = length h \<and>
     (\<forall>q. q \<noteq> p \<longrightarrow> h' ! q = h ! q) \<and> valid_RGBA (h' ! p) \<and> Rect (h' ! p) = Rect (h ! p) \<and>
     (\<forall>x' y'. RGBA_At p x' y' h' =
        (if Point_In \<lparr>X = x', Y = y'\<rparr> (Rect (h ! p)) \<and> x' = x + 1 \<and> y' = y
           then map_option (\<lambda>c. rgbaModel (applyWeightsBurkes c err 3)) (RGBA_At p x' y' h)
         else if Point_In \<lparr>X = x', Y = y'\<rparr> (Rect (h ! p)) \<and> x' = x + 2 \<and> y' = y
           then map_option (\<lambda>c. rgbaModel (applyWeightsBurkes c err 2)) (RGBA_At p x' y' h)
         else if Point_In \<lparr>X = x', Y = y'\<rparr> (Rect (h ! p)) \<and> x' = x - 2 \<and> y' = y + 1
           then map_option (\<lambda>c. rgbaModel (applyWeightsBurkes c err 1)) (RGBA_At p x' y' h)
         else if Point_In \<lparr>X = x', Y = y'\<rparr> (Rect (h ! p)) \<and> x' = x - 1 \<and> y' = y + 1
           then map_option (\<lambda>c. rgbaModel (applyWeightsBurkes c err 2)) (RGBA_At p x' y' h)
         else if Point_In \<lparr>X = x', Y = y'\<rparr> (Rect (h ! p)) \<and> x' = x \<and> y' = y + 1
           then map_option (\<lambda>c. rgbaModel (applyWeightsBurkes c err 3)) (RGBA_At p x' y' h)
         else if Point_In \<lparr>X = x', Y = y'\<rparr> (Rect (h ! p)) \<and> x' = x + 1 \<and> y' = y + 1
           then map_option (\<lambda>c. rgbaModel (applyWeightsBurkes c err 2)) (RGBA_At p x' y' h)
         else if Point_In \<lparr>X = x', Y = y'\<rparr> (Rect (h ! p)) \<and> x' = x + 2 \<and> y' = y + 1
           then map_option (\<lambda>c. rgbaModel (applyWeightsBurkes c err 1)) (RGBA_At p x' y' h)
         else RGBA_At p x' y' h))"
proof -
  from Burkes_valid[OF p v, of x y err]
  obtain b where b: "Burkes x y p err h = Some (h[p := b])" "valid_RGBA b" "Rect b = Rect (h ! p)"
    and pxb: "\<And>x' y'. px b x' y' =
        (if Point_In \<lparr>X = x', Y = y'\<rparr> (Rect (h ! p)) \<and> x' = x + 1 \<and> y' = y
           then rgbaModel (applyWeightsBurkes (px (h ! p) x' y') err 3)
         else if Point_In \<lparr>X = x', Y = y'\<rparr> (Rect (h ! p)) \<and> x' = x + 2 \<and> y' = y
           then rgbaModel (applyWeightsBurkes (px (h ! p) x' y') err 2)
         else if Point_In \<lparr>X = x', Y = y'\<rparr> (Rect (h ! p)) \<and> x' = x - 2 \<and> y' = y + 1
           then rgbaModel (applyWeightsBurkes (px (h ! p) x' y') err 1)
         else if Point_In \<lparr>X = x', Y = y'\<rparr> (Rect (h ! p)) \<and> x' = x - 1 \<and> y' = y + 1
           then rgbaModel (applyWeightsBurkes (px (h ! p) x' y') err 2)
         else if Point_In \<lparr>X = x', Y = y'\<rparr> (Rect (h ! p)) \<and> x' = x \<and> y' = y + 1
           then rgbaModel (applyWeightsBurkes (px (h ! p) x' y') err 3)
         else if Point_In \<lparr>X = x', Y = y'\<rparr> (Rect (h ! p)) \<and> x' = x + 1 \<and> y' = y + 1
           then rgbaModel (applyWeightsBurkes (px (h ! p) x' y') err 2)
         else if Point_In \<lparr>X = x', Y = y'\<rparr> (Rect (h ! p)) \<and> x' = x + 2 \<and> y' = y + 1
           then rgbaModel (applyWeightsBurkes (px (h ! p) x' y') err 1)
         else px (h ! p) x' y')"
    by blast
  let ?h = "h[p := b]"
  have a': "RGBA_At p x' y' ?h = Some (px b x' y')" for x' y'
    using p b(2) by (simp add: RGBA_At_valid)
  have a: "RGBA_At p x' y' h = Some (px (h ! p) x' y')" for x' y'
    using p v by (simp add: RGBA_At_valid)
  have f: "length ?h = length h" "\<forall>q. q \<noteq> p \<longrightarrow> ?h ! q = h ! q" "valid_RGBA (?h ! p)" "Rect (?h ! p) = Rect (h ! p)"
    using p b(2,3) by simp_all
  have "\<forall>x' y'. RGBA_At p x' y' ?h =
        (if Point_In \<lparr>X = x', Y = y'\<rparr> (Rect (h ! p)) \<and> x' = x + 1 \<and> y' = y
           then map_option (\<lambda>c. rgbaModel (applyWeightsBurkes c err 3)) (RGBA_At p x' y' h)
         else if Point_In \<lparr>X = x', Y = y'\<rparr> (Rect (h ! p)) \<and> x' = x + 2 \<and> y' = y
           then map_option (\<lambda>c. rgbaModel (applyWeightsBurkes c err 2)) (RGBA_At p x' y' h)
         else if Point_In \<lparr>X = x', Y = y'\<rparr> (Rect (h ! p)) \<and> x' = x - 2 \<and> y' = y + 1
           then map_option (\<lambda>c. rgbaModel (applyWeightsBurkes c err 1)) (RGBA_At p x' y' h)
         else if Point_In \<lparr>X = x', Y = y'\<rparr> (Rect (h ! p)) \<and> x' = x - 1 \<and> y' = y + 1
           then map_option (\<lambda>c. rgbaModel (applyWeightsBurkes c err 2)) (RGBA_At p x' y' h)
         else if Point_In \<lparr>X = x', Y = y'\<rparr> (Rect (h ! p)) \<and> x' = x \<and> y' = y + 1
           then map_option (\<lambda>c. rgbaModel (applyWeightsBurkes c err 3)) (RGBA_At p x' y' h)
         else if Point_In \<lparr>X = x', Y = y'\<rparr> (Rect (h ! p)) \<and> x' = x + 1 \<and> y' = y + 1
           then map_option (\<lambda>c. rgbaModel (applyWeightsBurkes c err 2)) (RGBA_At p x' y' h)
         else if Point_In \<lparr>X = x', Y = y'\<rparr> (Rect (h ! p)) \<and> x' = x + 2 \<and> y' = y + 1
           then map_option (\<lambda>c. rgbaModel (applyWeightsBurkes c err 1)) (RGBA_At p x' y' h)
         else RGBA_At p x' y' h)"
    by (simp only: a a' pxb option.map if_distrib[of Some] simp_thms)
  then show ?thesis using b(1) f by blast
qed

lemma Dither_total:
  assumes "valid_Image img h" "algo = FloydSteinberg \<or> algo = Burkes"
  shows "\<exists>p h'. Dither img algo finder h = Some (p, h')"
  using Dither_result[of img h algo "\<lambda>c. True" finder, OF assms(1) forward_kernel_package[OF assms(2)]]
  by blast

lemma premul16_opaque: "premul16 v 0xFFFF = ucast v"
proof -
  have v: "unat v < 65536" using unsigned_less[of v, where 'a = nat] by simp
  then have "unat v * 65535 < 4294967296" by linarith
  then have "unat ((ucast v :: uint32) * 0xFFFF) = unat v * 65535"
    using v by (simp add: unat_word_ariths unsigned_ucast_eq take_bit_nat_eq_self)
  then have "unat (premul16 v 0xFFFF) = unat v" by (simp add: premul16_def unat_div)
  then show ?thesis using v by (simp add: word_unat_eq_iff unsigned_ucast_eq take_bit_nat_eq_self)
qed

section \<open>The claims of the specification\<close>

subsection \<open>C1: the monochrome strategy leaves only black and white\<close>



subsection \<open>C2: the threshold of the monochrome strategy\<close>

text \<open>
  Claim C2. For every colour \<open>c\<close> with channels \<open>(r, g, b, a) = c.RGBA()\<close>,
  \<open>BlackAndWhitePalette\<close> takes the unweighted mean \<open>(r + g + b) / 3\<close> (the integer
  quotient; the sum does not overflow) and returns black (\<open>Gray16{0}\<close>) exactly when the
  mean is strictly below half of 65535, and white (\<open>Gray16{0xFFFF}\<close>) otherwise. The half
  is the integer \<open>0xFFFF >> 1 = 65535 div 2 = 32767\<close>, so that the mean 32766 is the
  last black one and the mean 32767 is white. Black and white read as
  \<open>(0, 0, 0, 0xFFFF)\<close> and \<open>(0xFFFF, 0xFFFF, 0xFFFF, 0xFFFF)\<close>.
\<close>

theorem BlackAndWhitePalette_mean_threshold:
  "BlackAndWhitePalette c =
     (case Color_RGBA c of (r, g, b, a) \<Rightarrow>
        if (unat r + unat g + unat b) div 3 < 65535 div 2 then Gray16 0 else Gray16 0xFFFF) \<and>
   Color_RGBA (Gray16 0) = (0, 0, 0, 0xFFFF) \<and>
   Color_RGBA (Gray16 0xFFFF) = (0xFFFF, 0xFFFF, 0xFFFF, 0xFFFF) \<and>
   BlackAndWhitePalette (Gray16 32766) = Gray16 0 \<and>
   BlackAndWhitePalette (Gray16 32767) = Gray16 0xFFFF"
  using BW_char[of c] by (simp add: BW_char)

subsection \<open>C3: the numerators of the Burkes kernel\<close>

text \<open>
  The numerator 4 that the claim gives for the right-hand neighbour fails at the error
  8192: the share is \<open>(8192 << 3) >> 5 = 2048\<close>, not \<open>8192 * 4 / 32 = 1024\<close>, and on
  an opaque black image of two pixels the right-hand pixel becomes 8, the high byte of
  2048.
\<close>

theorem Burkes_right_share_counterexample:
  "shareBurkes 8192 3 \<noteq> (8192 * 4) div 32 \<and>
   Burkes 0 0 0 \<lparr>R = 8192, G = 0, B = 0, A = 0\<rparr>
     [\<lparr>Pix = [0, 0, 0, 255, 0, 0, 0, 255], Stride = 8,
       Rect = \<lparr>MinPt = \<lparr>X = 0, Y = 0\<rparr>, MaxPt = \<lparr>X = 2, Y = 1\<rparr>\<rparr>\<rparr>]
   = Some [\<lparr>Pix = [0, 0, 0, 255, 8, 0, 0, 255], Stride = 8,
       Rect = \<lparr>MinPt = \<lparr>X = 0, Y = 0\<rparr>, MaxPt = \<lparr>X = 2, Y = 1\<rparr>\<rparr>\<rparr>]"
proof -
  have s: "shareBurkes 8192 3 = 2048" "shareBurkes 0 3 = 0"
    by (simp_all add: shareBurkes_def wrap_int64_def drop_bit_eq_div push_bit_eq_mult)
  have c: "applyWeightsBurkes (RGBA 0 0 0 255) \<lparr>R = 8192, G = 0, B = 0, A = 0\<rparr> 3 = NRGBA64 2048 0 0 0xFFFF"
    by (simp add: applyWeightsBurkes_def s spread8_def wrap_int64_def makeColor_def clamp_def)
  have m: "rgbaModel (NRGBA64 2048 0 0 0xFFFF) = RGBA 8 0 0 255"
    by (simp add: premul16_opaque)
  show ?thesis
    by (simp add: s Burkes_def RGBA_At_def At_img_def RGBA_Set_def Set_img_def Point_In_def PixOffset_def c m
        del: rgbaModel.simps)
qed

text \<open>
  Claim C3, amended. On a valid image, called at any \<open>(x, y)\<close>, \<open>Burkes\<close> changes the
  two pixels to the right and the five pixels of the row below in the columns \<open>x - 2\<close> to
  \<open>x + 2\<close>, as far as they lie in the bounds, and no other pixel. Each of them receives
  \<open>applyWeightsBurkes\<close> with the shift counts 3, 2, 1, 2, 3, 2, 1, which adds the share
  \<open>(e << mul) >> 5\<close> to each channel: for every error that \<open>colorDiff\<close> can produce
  this is \<open>e * 2 ^ mul div 32\<close>, that is the numerators 8, 4 (right, right+1) and
  2, 4, 8, 4, 2 (below-2 to below+2) over the denominator 32. The numerators sum to 32.
\<close>

theorem Burkes_numerators:
  assumes "p < length h" and "valid_RGBA (h ! p)"
  shows "(\<exists>h'. Burkes x y p err h = Some h' \<and>
     (\<forall>x' y'. RGBA_At p x' y' h' =
        (if Point_In \<lparr>X = x', Y = y'\<rparr> (Rect (h ! p)) \<and> x' = x + 1 \<and> y' = y
           then map_option (\<lambda>c. rgbaModel (applyWeightsBurkes c err 3)) (RGBA_At p x' y' h)
         else if Point_In \<lparr>X = x', Y = y'\<rparr> (Rect (h ! p)) \<and> x' = x + 2 \<and> y' = y
           then map_option (\<lambda>c. rgbaModel (applyWeightsBurkes c err 2)) (RGBA_At p x' y' h)
         else if Point_In \<lparr>X = x', Y = y'\<rparr> (Rect (h ! p)) \<and> x' = x - 2 \<and> y' = y + 1
           then map_option (\<lambda>c. rgbaModel (applyWeightsBurkes c err 1)) (RGBA_At p x' y' h)
         else if Point_In \<lparr>X = x', Y = y'\<rparr> (Rect (h ! p)) \<and> x' = x - 1 \<and> y' = y + 1
           then map_option (\<lambda>c. rgbaModel (applyWeightsBurkes c err 2)) (RGBA_At p x' y' h)
         else if Point_In \<lparr>X = x', Y = y'\<rparr> (Rect (h ! p)) \<and> x' = x \<and> y' = y + 1
           then map_option (\<lambda>c. rgbaModel (applyWeightsBurkes c err 3)) (RGBA_At p x' y' h)
         else if Point_In \<lparr>X = x', Y = y'\<rparr> (Rect (h ! p)) \<and> x' = x + 1 \<and> y' = y + 1
           then map_option (\<lambda>c. rgbaModel (applyWeightsBurkes c err 2)) (RGBA_At p x' y' h)
         else if Point_In \<lparr>X = x', Y = y'\<rparr> (Rect (h ! p)) \<and> x' = x + 2 \<and> y' = y + 1
           then map_option (\<lambda>c. rgbaModel (applyWeightsBurkes c err 1)) (RGBA_At p x' y' h)
         else RGBA_At p x' y' h))) \<and>
   (\<forall>orig m. applyWeightsBurkes orig err m =
      (case Color_RGBA orig of (oR, oG, oB, oA) \<Rightarrow>
         makeColor (wrap_int64 (uint oR + shareBurkes (R err) m)) (wrap_int64 (uint oG + shareBurkes (G err) m))
           (wrap_int64 (uint oB + shareBurkes (B err) m)) (wrap_int64 (uint oA + shareBurkes (A err) m)))) \<and>
   (\<forall>e. \<bar>e\<bar> \<le> 2 ^ 32 \<longrightarrow>
      shareBurkes e 3 = (e * 8) div 32 \<and> shareBurkes e 2 = (e * 4) div 32 \<and> shareBurkes e 1 = (e * 2) div 32) \<and>
   (8 + 4 + 2 + 4 + 8 + 4 + 2 = (32 :: int))"
proof -
  have k: "\<exists>h'. Burkes x y p err h = Some h' \<and>
     (\<forall>x' y'. RGBA_At p x' y' h' =
        (if Point_In \<lparr>X = x', Y = y'\<rparr> (Rect (h ! p)) \<and> x' = x + 1 \<and> y' = y
           then map_option (\<lambda>c. rgbaModel (applyWeightsBurkes c err 3)) (RGBA_At p x' y' h)
         else if Point_In \<lparr>X = x', Y = y'\<rparr> (Rect (h ! p)) \<and> x' = x + 2 \<and> y' = y
           then map_option (\<lambda>c. rgbaModel (applyWeightsBurkes c err 2)) (RGBA_At p x' y' h)
         else if Point_In \<lparr>X = x', Y = y'\<rparr> (Rect (h ! p)) \<and> x' = x - 2 \<and> y' = y + 1
           then map_option (\<lambda>c. rgbaModel (applyWeightsBurkes c err 1)) (RGBA_At p x' y' h)
         else if Point_In \<lparr>X = x', Y = y'\<rparr> (Rect (h ! p)) \<and> x' = x - 1 \<and> y' = y + 1
           then map_option (\<lambda>c. rgbaModel (applyWeightsBurkes c err 2)) (RGBA_At p x' y' h)
         else if Point_In \<lparr>X = x', Y = y'\<rparr> (Rect (h ! p)) \<and> x' = x \<and> y' = y + 1
           then map_option (\<lambda>c. rgbaModel (applyWeightsBurkes c err 3)) (RGBA_At p x' y' h)
         else if Point_In \<lparr>X = x', Y = y'\<rparr> (Rect (h ! p)) \<and> x' = x + 1 \<and> y' = y + 1
           then map_option (\<lambda>c. rgbaModel (applyWeightsBurkes c err 2)) (RGBA_At p x' y' h)
         else if Point_In \<lparr>X = x', Y = y'\<rparr> (Rect (h ! p)) \<and> x' = x + 2 \<and> y' = y + 1
           then map_option (\<lambda>c. rgbaModel (applyWeightsBurkes c err 1)) (RGBA_At p x' y' h)
         else RGBA_At p x' y' h))"
    using Burkes_heap[OF assms, of x y err] by blast
  have a: "applyWeightsBurkes orig err m =
      (case Color_RGBA orig of (oR, oG, oB, oA) \<Rightarrow>
         makeColor (wrap_int64 (uint oR + shareBurkes (R err) m)) (wrap_int64 (uint oG + shareBurkes (G err) m))
           (wrap_int64 (uint oB + shareBurkes (B err) m)) (wrap_int64 (uint oA + shareBurkes (A err) m)))" for orig m
    by (simp add: applyWeightsBurkes_def Let_def)
  have s: "shareBurkes e 3 = (e * 8) div 32 \<and> shareBurkes e 2 = (e * 4) div 32 \<and> shareBurkes e 1 = (e * 2) div 32"
    if "\<bar>e\<bar> \<le> 2 ^ 32" for e
    using shareBurkes_div[OF that, of 3] shareBurkes_div[OF that, of 2] shareBurkes_div[OF that, of 1] by simp
  show ?thesis using k a s by (intro conjI allI impI) simp_all
qed

text \<open>The theorem at an opaque black image of two pixels and the error 8192.\<close>

theorem Burkes_numerators_witness:
  "(\<exists>h'. Burkes 0 0 0 \<lparr>R = 8192, G = 0, B = 0, A = 0\<rparr> [\<lparr>Pix = [0, 0, 0, 255, 0, 0, 0, 255], Stride = 8, Rect = \<lparr>MinPt = \<lparr>X = 0, Y = 0\<rparr>, MaxPt = \<lparr>X = 2, Y = 1\<rparr>\<rparr>\<rparr>] = Some h' \<and>
      RGBA_At 0 1 0 h' = map_option (\<lambda>c. rgbaModel (applyWeightsBurkes c \<lparr>R = 8192, G = 0, B = 0, A = 0\<rparr> 3))
         (RGBA_At 0 1 0 [\<lparr>Pix = [0, 0, 0, 255, 0, 0, 0, 255], Stride = 8, Rect = \<lparr>MinPt = \<lparr>X = 0, Y = 0\<rparr>, MaxPt = \<lparr>X = 2, Y = 1\<rparr>\<rparr>\<rparr>])) \<and>
   shareBurkes 8192 3 = (8192 * 8) div 32"
proof -
  let ?img = "\<lparr>Pix = [0, 0, 0, 255, 0, 0, 0, 255], Stride = 8, Rect = \<lparr>MinPt = \<lparr>X = 0, Y = 0\<rparr>, MaxPt = \<lparr>X = 2, Y = 1\<rparr>\<rparr>\<rparr>"
  let ?err = "\<lparr>R = 8192, G = 0, B = 0, A = 0\<rparr>"
  have p: "0 < length [?img]" by simp
  have v: "valid_RGBA ([?img] ! 0)" by (simp add: valid_RGBA_def Dx_def Dy_def)
  have i: "Point_In \<lparr>X = 1, Y = 0\<rparr> (Rect ([?img] ! 0))" by (simp add: Point_In_def)
  note t = Burkes_numerators[OF p v, of 0 0 ?err]
  from t obtain h2 where h2: "Burkes 0 0 0 ?err [?img] = Some h2"
    and f2: "(\<forall>x' y'. RGBA_At 0 x' y' h2 =
        (if Point_In \<lparr>X = x', Y = y'\<rparr> (Rect ([?img] ! 0)) \<and> x' = 0 + 1 \<and> y' = 0
           then map_option (\<lambda>c. rgbaModel (applyWeightsBurkes c ?err 3)) (RGBA_At 0 x' y' [?img])
         else if Point_In \<lparr>X = x', Y = y'\<rparr> (Rect ([?img] ! 0)) \<and> x' = 0 + 2 \<and> y' = 0
           then map_option (\<lambda>c. rgbaModel (applyWeightsBurkes c ?err 2)) (RGBA_At 0 x' y' [?img])
         else if Point_In \<lparr>X = x', Y = y'\<rparr> (Rect ([?img] ! 0)) \<and> x' = 0 - 2 \<and> y' = 0 + 1
           then map_option (\<lambda>c. rgbaModel (applyWeightsBurkes c ?err 1)) (RGBA_At 0 x' y' [?img])
         else if Point_In \<lparr>X = x', Y = y'\<rparr> (Rect ([?img] ! 0)) \<and> x' = 0 - 1 \<and> y' = 0 + 1
           then map_option (\<lambda>c. rgbaModel (applyWeightsBurkes c ?err 2)) (RGBA_At 0 x' y' [?img])
         else if Point_In \<lparr>X = x', Y = y'\<rparr> (Rect ([?img] ! 0)) \<and> x' = 0 \<and> y' = 0 + 1
           then map_option (\<lambda>c. rgbaModel (applyWeightsBurkes c ?err 3)) (RGBA_At 0 x' y' [?img])
         else if Point_In \<lparr>X = x', Y = y'\<rparr> (Rect ([?img] ! 0)) \<and> x' = 0 + 1 \<and> y' = 0 + 1
           then map_option (\<lambda>c. rgbaModel (applyWeightsBurkes c ?err 2)) (RGBA_At 0 x' y' [?img])
         else if Point_In \<lparr>X = x', Y = y'\<rparr> (Rect ([?img] ! 0)) \<and> x' = 0 + 2 \<and> y' = 0 + 1
           then map_option (\<lambda>c. rgbaModel (applyWeightsBurkes c ?err 1)) (RGBA_At 0 x' y' [?img])
         else RGBA_At 0 x' y' [?img]))"
    by (elim conjE exE)
  from t have s: "shareBurkes 8192 3 = (8192 * 8) div 32" by simp
  have "RGBA_At 0 1 0 h2 = map_option (\<lambda>c. rgbaModel (applyWeightsBurkes c ?err 3)) (RGBA_At 0 1 0 [?img])"
    using f2[THEN spec, THEN spec, of 1 0] i by (simp del: rgbaModel.simps)
  then show ?thesis using h2 s by blast
qed

subsection \<open>C4: the four shares of the Floyd-Steinberg kernel\<close>

text \<open>
  The claim that the four shares sum to the error for every error value fails at
  \<open>e = 1\<close>, where each share \<open>(1 * w) >> 4\<close> is 0.
\<close>

theorem FloydSteinberg_shares_counterexample:
  "shareFloydSteinberg 1 7 + shareFloydSteinberg 1 1 + shareFloydSteinberg 1 5 + shareFloydSteinberg 1 3 \<noteq> 1"
  by (simp add: shareFloydSteinberg_def wrap_int64_def drop_bit_eq_div)

text \<open>
  Claim C4, amended. The weights 7, 1, 5 and 3 sum to the denominator 16, but each share
  \<open>(e * w) >> 4\<close> is rounded down on its own. For every error \<open>e\<close> that \<open>colorDiff\<close>
  can produce (\<open>\<bar>e\<bar> \<le> 2 ^ 32\<close>), the four shares sum to at least \<open>e - 3\<close> and at most
  \<open>e\<close>, and to \<open>e\<close> exactly when \<open>e\<close> is a multiple of 16.
\<close>

theorem FloydSteinberg_shares_sum:
  assumes "\<bar>e\<bar> \<le> 2 ^ 32"
  shows "e - 3 \<le> shareFloydSteinberg e 7 + shareFloydSteinberg e 1 + shareFloydSteinberg e 5 + shareFloydSteinberg e 3 \<and>
     shareFloydSteinberg e 7 + shareFloydSteinberg e 1 + shareFloydSteinberg e 5 + shareFloydSteinberg e 3 \<le> e \<and>
     (shareFloydSteinberg e 7 + shareFloydSteinberg e 1 + shareFloydSteinberg e 5 + shareFloydSteinberg e 3 = e
        \<longleftrightarrow> 16 dvd e)"
  using FS_sum_bounds[of e]
  by (simp only: shareFloydSteinberg_div[OF assms, of 7] shareFloydSteinberg_div[OF assms, of 1]
      shareFloydSteinberg_div[OF assms, of 5] shareFloydSteinberg_div[OF assms, of 3])

text \<open>The theorem at \<open>e = 48\<close>, a multiple of 16, and at \<open>e = 50\<close>.\<close>

theorem FloydSteinberg_shares_sum_witness:
  "shareFloydSteinberg 48 7 + shareFloydSteinberg 48 1 + shareFloydSteinberg 48 5 + shareFloydSteinberg 48 3 = 48 \<and>
   shareFloydSteinberg 50 7 + shareFloydSteinberg 50 1 + shareFloydSteinberg 50 5 + shareFloydSteinberg 50 3 \<le> 50"
  using FloydSteinberg_shares_sum[of 48] FloydSteinberg_shares_sum[of 50] by simp

subsection \<open>C5: the alpha channel of the monochrome strategy\<close>

text \<open>
  The claim that the strategy keeps the alpha channel fails at the transparent colour
  \<open>color.RGBA{0, 0, 0, 0}\<close>: its alpha is 0, the alpha of the result is \<open>0xFFFF\<close>.
\<close>

theorem BlackAndWhitePalette_alpha_counterexample:
  "Color_RGBA (RGBA 0 0 0 0) = (0, 0, 0, 0) \<and>
   Color_RGBA (BlackAndWhitePalette (RGBA 0 0 0 0)) = (0, 0, 0, 0xFFFF)"
  by (simp add: BW_char spread8_def)

text \<open>
  Claim C5, amended. For every input colour \<open>c\<close>, the alpha channel of the colour that
  \<open>BlackAndWhitePalette\<close> returns is \<open>0xFFFF\<close> (opaque), whatever the alpha channel of
  \<open>c\<close> is: the result is a \<open>color.Gray16\<close>, which has no alpha of its own.
\<close>

theorem BlackAndWhitePalette_alpha_opaque:
  "\<exists>r g b. Color_RGBA (BlackAndWhitePalette c) = (r, g, b, 0xFFFF)"
  using BW_two_values[of c] by auto

subsection \<open>C6: the engine is total and keeps the bounds\<close>



subsection \<open>C7: the palette strategies are idempotent\<close>

text \<open>
  Claim C7. Each palette strategy returns its own results unchanged:
  \<open>BlackAndWhitePalette\<close> for every colour, and \<open>WebSafePalette\<close> and \<open>Plan9Palette\<close>
  for every colour and every table of \<open>color.RGBA\<close> entries that is not empty, as both
  tables of the standard library are.
\<close>

theorem palette_strategies_idempotent:
  "BlackAndWhitePalette (BlackAndWhitePalette c) = BlackAndWhitePalette c \<and>
   (palette_table WebSafe \<longrightarrow>
      (\<exists>q. WebSafePalette WebSafe c = Some q \<and> WebSafePalette WebSafe q = Some q)) \<and>
   (palette_table Plan9 \<longrightarrow>
      (\<exists>q. Plan9Palette Plan9 c = Some q \<and> Plan9Palette Plan9 q = Some q))"
  using BW_idem[of c] Convert_idem[of WebSafe c] Convert_idem[of Plan9 c]
  by (simp add: WebSafePalette_def Plan9Palette_def)

text \<open>The theorem at a green colour and a table of three entries.\<close>

theorem palette_strategies_idempotent_witness:
  "BlackAndWhitePalette (BlackAndWhitePalette (RGBA 10 200 30 255)) = BlackAndWhitePalette (RGBA 10 200 30 255) \<and>
   (\<exists>q. WebSafePalette [RGBA 0 0 0 255, RGBA 0 0 51 255, RGBA 255 255 255 255] (RGBA 10 200 30 255) = Some q \<and>
        WebSafePalette [RGBA 0 0 0 255, RGBA 0 0 51 255, RGBA 255 255 255 255] q = Some q) \<and>
   (\<exists>q. Plan9Palette [RGBA 0 0 0 255, RGBA 0 0 51 255, RGBA 255 255 255 255] (RGBA 10 200 30 255) = Some q \<and>
        Plan9Palette [RGBA 0 0 0 255, RGBA 0 0 51 255, RGBA 255 255 255 255] q = Some q)"
  using palette_strategies_idempotent[of "RGBA 10 200 30 255" "[RGBA 0 0 0 255, RGBA 0 0 51 255, RGBA 255 255 255 255]"
      "[RGBA 0 0 0 255, RGBA 0 0 51 255, RGBA 255 255 255 255]"]
  by (simp add: palette_table_def)

subsection \<open>C8: the source image is not changed\<close>



subsection \<open>C9: offsets outside the bounds are skipped\<close>

text \<open>
  Claim C9. On a valid image, called at any \<open>(x, y)\<close> with any error, both kernels return
  (no slice is taken outside the bytes), leave every other image of the store alone and
  keep the image valid. A neighbour inside the bounds receives the colour that
  \<open>applyWeightsFloydSteinber\<close> (or \<open>applyWeightsBurkes\<close>) computes from its own old
  colour, the error and its fixed weight, whichever other neighbours are outside; every
  other point, in particular every neighbour outside the bounds and the pixel at the other
  end of the row, reads as before. \<open>Dither\<close> returns on every well-formed image, a single
  pixel included.
\<close>

theorem kernels_skip_points_outside:
  assumes "p < length h" and "valid_RGBA (h ! p)"
  shows "(\<exists>h'. FloydSteinberg x y p err h = Some h' \<and> length h' = length h \<and>
     (\<forall>q. q \<noteq> p \<longrightarrow> h' ! q = h ! q) \<and> valid_RGBA (h' ! p) \<and> Rect (h' ! p) = Rect (h ! p) \<and>
     (\<forall>x' y'. RGBA_At p x' y' h' =
        (if Point_In \<lparr>X = x', Y = y'\<rparr> (Rect (h ! p)) \<and> x' = x + 1 \<and> y' = y
           then map_option (\<lambda>c. rgbaModel (applyWeightsFloydSteinber c err 7)) (RGBA_At p x' y' h)
         else if Point_In \<lparr>X = x', Y = y'\<rparr> (Rect (h ! p)) \<and> x' = x + 1 \<and> y' = y + 1
           then map_option (\<lambda>c. rgbaModel (applyWeightsFloydSteinber c err 1)) (RGBA_At p x' y' h)
         else if Point_In \<lparr>X = x', Y = y'\<rparr> (Rect (h ! p)) \<and> x' = x \<and> y' = y + 1
           then map_option (\<lambda>c. rgbaModel (applyWeightsFloydSteinber c err 5)) (RGBA_At p x' y' h)
         else if Point_In \<lparr>X = x', Y = y'\<rparr> (Rect (h ! p)) \<and> x' = x - 1 \<and> y' = y + 1
           then map_option (\<lambda>c. rgbaModel (applyWeightsFloydSteinber c err 3)) (RGBA_At p x' y' h)
         else RGBA_At p x' y' h))) \<and>
   (\<exists>h'. Burkes x y p err h = Some h' \<and> length h' = length h \<and>
     (\<forall>q. q \<noteq> p \<longrightarrow> h' ! q = h ! q) \<and> valid_RGBA (h' ! p) \<and> Rect (h' ! p) = Rect (h ! p) \<and>
     (\<forall>x' y'. RGBA_At p x' y' h' =
        (if Point_In \<lparr>X = x', Y = y'\<rparr> (Rect (h ! p)) \<and> x' = x + 1 \<and> y' = y
           then map_option (\<lambda>c. rgbaModel (applyWeightsBurkes c err 3)) (RGBA_At p x' y' h)
         else if Point_In \<lparr>X = x', Y = y'\<rparr> (Rect (h ! p)) \<and> x' = x + 2 \<and> y' = y
           then map_option (\<lambda>c. rgbaModel (applyWeightsBurkes c err 2)) (RGBA_At p x' y' h)
         else if Point_In \<lparr>X = x', Y = y'\<rparr> (Rect (h ! p)) \<and> x' = x - 2 \<and> y' = y + 1
           then map_option (\<lambda>c. rgbaModel (applyWeightsBurkes c err 1)) (RGBA_At p x' y' h)
         else if Point_In \<lparr>X = x', Y = y'\<rparr> (Rect (h ! p)) \<and> x' = x - 1 \<and> y' = y + 1
           then map_option (\<lambda>c. rgbaModel (applyWeightsBurkes c err 2)) (RGBA_At p x' y' h)
         else if Point_In \<lparr>X = x', Y = y'\<rparr> (Rect (h ! p)) \<and> x' = x \<and> y' = y + 1
           then map_option (\<lambda>c. rgbaModel (applyWeightsBurkes c err 3)) (RGBA_At p x' y' h)
         else if Point_In \<lparr>X = x', Y = y'\<rparr> (Rect (h ! p)) \<and> x' = x + 1 \<and> y' = y + 1
           then map_option (\<lambda>c. rgbaModel (applyWeightsBurkes c err 2)) (RGBA_At p x' y' h)
         else if Point_In \<lparr>X = x', Y = y'\<rparr> (Rect (h ! p)) \<and> x' = x + 2 \<and> y' = y + 1
           then map_option (\<lambda>c. rgbaModel (applyWeightsBurkes c err 1)) (RGBA_At p x' y' h)
         else RGBA_At p x' y' h))) \<and>
   (\<forall>img h0 finder. valid_Image img h0 \<longrightarrow>
      (\<exists>q h'. Dither img FloydSteinberg finder h0 = Some (q, h')) \<and>
      (\<exists>q h'. Dither img Burkes finder h0 = Some (q, h')))"
  using FloydSteinberg_heap[OF assms, of x y err] Burkes_heap[OF assms, of x y err]
    Dither_total[of _ _ FloydSteinberg] Dither_total[of _ _ Burkes]
  by (intro conjI allI impI) simp_all

text \<open>The theorem at an image of one pixel: all neighbours are outside.\<close>

theorem kernels_skip_points_outside_witness:
  "(\<exists>h'. FloydSteinberg 0 0 0 \<lparr>R = 100, G = 0, B = 0, A = 0\<rparr> [\<lparr>Pix = [10, 20, 30, 255], Stride = 4, Rect = \<lparr>MinPt = \<lparr>X = 0, Y = 0\<rparr>, MaxPt = \<lparr>X = 1, Y = 1\<rparr>\<rparr>\<rparr>] = Some h' \<and>
      RGBA_At 0 0 0 h' = RGBA_At 0 0 0 [\<lparr>Pix = [10, 20, 30, 255], Stride = 4, Rect = \<lparr>MinPt = \<lparr>X = 0, Y = 0\<rparr>, MaxPt = \<lparr>X = 1, Y = 1\<rparr>\<rparr>\<rparr>]) \<and>
   (\<exists>h'. Burkes 0 0 0 \<lparr>R = 100, G = 0, B = 0, A = 0\<rparr> [\<lparr>Pix = [10, 20, 30, 255], Stride = 4, Rect = \<lparr>MinPt = \<lparr>X = 0, Y = 0\<rparr>, MaxPt = \<lparr>X = 1, Y = 1\<rparr>\<rparr>\<rparr>] = Some h' \<and>
      RGBA_At 0 0 0 h' = RGBA_At 0 0 0 [\<lparr>Pix = [10, 20, 30, 255], Stride = 4, Rect = \<lparr>MinPt = \<lparr>X = 0, Y = 0\<rparr>, MaxPt = \<lparr>X = 1, Y = 1\<rparr>\<rparr>\<rparr>]) \<and>
   (\<exists>q h'. Dither (RGBARef 0) FloydSteinberg BlackAndWhitePalette [\<lparr>Pix = [10, 20, 30, 255], Stride = 4, Rect = \<lparr>MinPt = \<lparr>X = 0, Y = 0\<rparr>, MaxPt = \<lparr>X = 1, Y = 1\<rparr>\<rparr>\<rparr>] = Some (q, h'))"
proof -
  let ?img = "\<lparr>Pix = [10, 20, 30, 255], Stride = 4, Rect = \<lparr>MinPt = \<lparr>X = 0, Y = 0\<rparr>, MaxPt = \<lparr>X = 1, Y = 1\<rparr>\<rparr>\<rparr>"
  let ?err = "\<lparr>R = 100, G = 0, B = 0, A = 0\<rparr>"
  have p: "0 < length [?img]" by simp
  have v: "valid_RGBA ([?img] ! 0)" by (simp add: valid_RGBA_def Dx_def Dy_def)
  have vi: "valid_Image (RGBARef 0) [?img]" using v by simp
  note t = kernels_skip_points_outside[OF p v, of 0 0 ?err]
  from t obtain h1 where h1: "FloydSteinberg 0 0 0 ?err [?img] = Some h1"
    and f1: "\<forall>x' y'. RGBA_At 0 x' y' h1 =
        (if Point_In \<lparr>X = x', Y = y'\<rparr> (Rect ([?img] ! 0)) \<and> x' = 0 + 1 \<and> y' = 0
           then map_option (\<lambda>c. rgbaModel (applyWeightsFloydSteinber c ?err 7)) (RGBA_At 0 x' y' [?img])
         else if Point_In \<lparr>X = x', Y = y'\<rparr> (Rect ([?img] ! 0)) \<and> x' = 0 + 1 \<and> y' = 0 + 1
           then map_option (\<lambda>c. rgbaModel (applyWeightsFloydSteinber c ?err 1)) (RGBA_At 0 x' y' [?img])
         else if Point_In \<lparr>X = x', Y = y'\<rparr> (Rect ([?img] ! 0)) \<and> x' = 0 \<and> y' = 0 + 1
           then map_option (\<lambda>c. rgbaModel (applyWeightsFloydSteinber c ?err 5)) (RGBA_At 0 x' y' [?img])
         else if Point_In \<lparr>X = x', Y = y'\<rparr> (Rect ([?img] ! 0)) \<and> x' = 0 - 1 \<and> y' = 0 + 1
           then map_option (\<lambda>c. rgbaModel (applyWeightsFloydSteinber c ?err 3)) (RGBA_At 0 x' y' [?img])
         else RGBA_At 0 x' y' [?img])"
    by (elim conjE exE)
  from t obtain h2 where h2: "Burkes 0 0 0 ?err [?img] = Some h2"
    and f2: "(\<forall>x' y'. RGBA_At 0 x' y' h2 =
        (if Point_In \<lparr>X = x', Y = y'\<rparr> (Rect ([?img] ! 0)) \<and> x' = 0 + 1 \<and> y' = 0
           then map_option (\<lambda>c. rgbaModel (applyWeightsBurkes c ?err 3)) (RGBA_At 0 x' y' [?img])
         else if Point_In \<lparr>X = x', Y = y'\<rparr> (Rect ([?img] ! 0)) \<and> x' = 0 + 2 \<and> y' = 0
           then map_option (\<lambda>c. rgbaModel (applyWeightsBurkes c ?err 2)) (RGBA_At 0 x' y' [?img])
         else if Point_In \<lparr>X = x', Y = y'\<rparr> (Rect ([?img] ! 0)) \<and> x' = 0 - 2 \<and> y' = 0 + 1
           then map_option (\<lambda>c. rgbaModel (applyWeightsBurkes c ?err 1)) (RGBA_At 0 x' y' [?img])
         else if Point_In \<lparr>X = x', Y = y'\<rparr> (Rect ([?img] ! 0)) \<and> x' = 0 - 1 \<and> y' = 0 + 1
           then map_option (\<lambda>c. rgbaModel (applyWeightsBurkes c ?err 2)) (RGBA_At 0 x' y' [?img])
         else if Point_In \<lparr>X = x', Y = y'\<rparr> (Rect ([?img] ! 0)) \<and> x' = 0 \<and> y' = 0 + 1
           then map_option (\<lambda>c. rgbaModel (applyWeightsBurkes c ?err 3)) (RGBA_At 0 x' y' [?img])
         else if Point_In \<lparr>X = x', Y = y'\<rparr> (Rect ([?img] ! 0)) \<and> x' = 0 + 1 \<and> y' = 0 + 1
           then map_option (\<lambda>c. rgbaModel (applyWeightsBurkes c ?err 2)) (RGBA_At 0 x' y' [?img])
         else if Point_In \<lparr>X = x', Y = y'\<rparr> (Rect ([?img] ! 0)) \<and> x' = 0 + 2 \<and> y' = 0 + 1
           then map_option (\<lambda>c. rgbaModel (applyWeightsBurkes c ?err 1)) (RGBA_At 0 x' y' [?img])
         else RGBA_At 0 x' y' [?img]))"
    by (elim conjE exE)
  from t vi obtain q h3 where h3: "Dither (RGBARef 0) FloydSteinberg BlackAndWhitePalette [?img] = Some (q, h3)"
    by blast
  have "RGBA_At 0 0 0 h1 = RGBA_At 0 0 0 [?img]" using f1[THEN spec, THEN spec, of 0 0] by simp
  moreover have "RGBA_At 0 0 0 h2 = RGBA_At 0 0 0 [?img]" using f2[THEN spec, THEN spec, of 0 0] by simp
  ultimately show ?thesis using h1 h2 h3 by blast
qed

subsection \<open>C10: the channels of the result are bytes\<close>

text \<open>
  Claim C10. For every well-formed source image, either kernel of the package and any
  strategy, every colour read from the image that \<open>Dither\<close> returns, inside or outside
  its bounds, has four channels of the form \<open>k * 0x101\<close> with \<open>k \<le> 255\<close>: the image
  is an \<open>image.RGBA\<close> with one byte per channel. A colour written into it is stored as
  \<open>color.RGBAModel\<close> converts it, which for a colour that is not a \<open>color.RGBA\<close> keeps
  the high byte \<open>uint8(v >> 8)\<close> of each 16-bit channel.
\<close>

theorem Dither_output_channels_replicated:
  assumes "valid_Image img h" and "algo = FloydSteinberg \<or> algo = Burkes"
  shows "\<exists>p h'. Dither img algo finder h = Some (p, h') \<and>
     (\<forall>x y. \<exists>c. RGBA_At p x y h' = Some c \<and>
        (case Color_RGBA c of (r, g, b, a) \<Rightarrow>
           (\<exists>k\<le>255. unat r = k * 0x101) \<and> (\<exists>k\<le>255. unat g = k * 0x101) \<and>
           (\<exists>k\<le>255. unat b = k * 0x101) \<and> (\<exists>k\<le>255. unat a = k * 0x101))) \<and>
     (\<forall>x y c. Point_In \<lparr>X = x, Y = y\<rparr> (Rect (h' ! p)) \<longrightarrow>
        (\<exists>h2. RGBA_Set p x y c h' = Some h2 \<and> RGBA_At p x y h2 = Some (rgbaModel c) \<and>
           (\<not> is_RGBA c \<longrightarrow> rgbaModel c = (case Color_RGBA c of (r, g, b, a) \<Rightarrow>
              RGBA (ucast (drop_bit 8 r)) (ucast (drop_bit 8 g)) (ucast (drop_bit 8 b)) (ucast (drop_bit 8 a))))))"
proof -
  have fk: "forward_kernel algo" using assms(2) by (rule forward_kernel_package)
  from Dither_result[of img h algo "\<lambda>c. True" finder, OF assms(1) fk]
  obtain b where b: "Dither img algo finder h = Some (length h, h @ [b])" "valid_RGBA b"
    by blast
  let ?p = "length h" and ?h = "h @ [b]"
  have p: "?p < length ?h" and v: "valid_RGBA (?h ! ?p)" using b(2) by simp_all
  have rd: "\<exists>c. RGBA_At ?p x y ?h = Some c \<and>
        (case Color_RGBA c of (r, g, b, a) \<Rightarrow>
           (\<exists>k\<le>255. unat r = k * 0x101) \<and> (\<exists>k\<le>255. unat g = k * 0x101) \<and>
           (\<exists>k\<le>255. unat b = k * 0x101) \<and> (\<exists>k\<le>255. unat a = k * 0x101))" for x y
  proof -
    obtain r g bb a where c: "px b x y = RGBA r g bb a" using px_is_RGBA by blast
    show ?thesis
      using spread8_replicated[of r] spread8_replicated[of g] spread8_replicated[of bb] spread8_replicated[of a]
      by (simp add: RGBA_At_last[OF b(2)] c)
  qed
  have wr: "\<exists>h2. RGBA_Set ?p x y c ?h = Some h2 \<and> RGBA_At ?p x y h2 = Some (rgbaModel c) \<and>
           (\<not> is_RGBA c \<longrightarrow> rgbaModel c = (case Color_RGBA c of (r, g, b, a) \<Rightarrow>
              RGBA (ucast (drop_bit 8 r)) (ucast (drop_bit 8 g)) (ucast (drop_bit 8 b)) (ucast (drop_bit 8 a))))"
    if "Point_In \<lparr>X = x, Y = y\<rparr> (Rect (?h ! ?p))" for x y c
  proof -
    have "RGBA_Set ?p x y c ?h = Some (?h[?p := set_px (?h ! ?p) x y c])"
      using p v by (rule RGBA_Set_valid)
    moreover have "RGBA_At ?p x y (?h[?p := set_px (?h ! ?p) x y c]) = Some (rgbaModel c)"
      using that b(2) by (simp add: RGBA_At_valid px_set_px)
    ultimately show ?thesis using rgbaModel_high_bytes[of c] by blast
  qed
  show ?thesis using b(1) rd wr by blast
qed

text \<open>The theorem at an image of one pixel, with the identity as strategy.\<close>

theorem Dither_output_channels_replicated_witness:
  "\<exists>p h'. Dither (ImageValue \<lparr>MinPt = \<lparr>X = 0, Y = 0\<rparr>, MaxPt = \<lparr>X = 1, Y = 1\<rparr>\<rparr> (\<lambda>x y. NRGBA64 0x1234 0x5678 0x9ABC 0xFFFF))
       FloydSteinberg (\<lambda>c. c) [] = Some (p, h') \<and>
     (\<exists>c. RGBA_At p 0 0 h' = Some c \<and>
        (case Color_RGBA c of (r, g, b, a) \<Rightarrow>
           (\<exists>k\<le>255. unat r = k * 0x101) \<and> (\<exists>k\<le>255. unat g = k * 0x101) \<and>
           (\<exists>k\<le>255. unat b = k * 0x101) \<and> (\<exists>k\<le>255. unat a = k * 0x101)))"
proof -
  let ?r = "\<lparr>MinPt = \<lparr>X = 0, Y = 0\<rparr>, MaxPt = \<lparr>X = 1, Y = 1\<rparr>\<rparr>"
  let ?img = "ImageValue ?r (\<lambda>x y. NRGBA64 0x1234 0x5678 0x9ABC 0xFFFF)"
  have v: "valid_Image ?img []" by (simp add: Dx_def Dy_def)
  have k: "FloydSteinberg = FloydSteinberg \<or> FloydSteinberg = Burkes" by simp
  from Dither_output_channels_replicated[of ?img "[]" FloydSteinberg "\<lambda>c. c", OF v k]
  obtain p h' where d: "Dither ?img FloydSteinberg (\<lambda>c. c) [] = Some (p, h')"
    and r: "\<forall>x y. \<exists>c. RGBA_At p x y h' = Some c \<and>
        (case Color_RGBA c of (r, g, b, a) \<Rightarrow>
           (\<exists>k\<le>255. unat r = k * 0x101) \<and> (\<exists>k\<le>255. unat g = k * 0x101) \<and>
           (\<exists>k\<le>255. unat b = k * 0x101) \<and> (\<exists>k\<le>255. unat a = k * 0x101))"
    by (elim exE conjE)
  from r[THEN spec, THEN spec, of 0 0] d show ?thesis
    by (intro exI[of _ p] exI[of _ h'] conjI)
qed

end
